theory Spec2Isabelle
  imports Complex_Main "HOL-Library.Word"
begin

section \<open>The video upload handler of the file-storage service\<close>

text \<open>
  The development embeds \<^verbatim>\<open>handlerUploadVideo\<close>, \<^verbatim>\<open>getVideoAspectRatio\<close> and
  \<^verbatim>\<open>processVideoForFastStart\<close> of the video API module. Exceptions are values of
  type \<open>error\<close>; a function that can throw returns \<open>error + 'a\<close>. The database, the
  local filesystem and the bucket form an explicit state that every step returns, so that
  what a throwing run leaves behind can be read off the result. The external world (the
  two command-line tools, the object store, the random source, the collaborators for
  authentication) is a record of functions that each theorem quantifies over.
\<close>

subsection \<open>Errors\<close>

datatype error =
    BadRequestError string
  | NotFoundError string
  | UserForbiddenError string
  | AuthError string       \<comment> \<open>whatever \<^verbatim>\<open>getBearerToken\<close> or \<^verbatim>\<open>validateJWT\<close> throw\<close>
  | ParseError string      \<comment> \<open>\<^verbatim>\<open>SyntaxError\<close> of \<^verbatim>\<open>JSON.parse\<close>, \<^verbatim>\<open>TypeError\<close> of \<^verbatim>\<open>data.streams[0]\<close>\<close>
  | Error string           \<comment> \<open>a plain \<^verbatim>\<open>Error\<close> with its message\<close>
  | S3Error string         \<comment> \<open>the rejection of \<^verbatim>\<open>s3File.write\<close>\<close>

subsection \<open>JavaScript numbers\<close>

text \<open>
  A Number is an IEEE 754 binary64 value: not-a-number, an infinity with its sign, or a
  finite value with a sign bit and a magnitude (so that both zeros exist). The magnitude
  is kept as a rational; the values that occur are the ones \<open>round_magnitude\<close> produces.
\<close>

datatype double = NaN | Infinity bool | Fin bool rat

function bit_length :: "int \<Rightarrow> nat" where
  "bit_length n = (if n \<le> 0 then 0 else Suc (bit_length (n div 2)))"
  by pat_completeness auto
termination
  by (relation "measure nat") auto

declare bit_length.simps [simp del]

definition ilog2 :: "rat \<Rightarrow> int" where
  \<comment> \<open>for \<open>0 < x\<close>, the exponent \<open>e\<close> with \<open>2 powi e \<le> x < 2 powi (e + 1)\<close>\<close>
  "ilog2 x =
     (let (p, q) = quotient_of x;
          d = int (bit_length p) - int (bit_length q)
      in if 2 powi d \<le> x then d else d - 1)"

definition round_half_even :: "rat \<Rightarrow> int" where
  "round_half_even x =
     (let f = \<lfloor>x\<rfloor>; r = x - of_int f
      in if r < 1 / 2 then f
         else if 1 / 2 < r then f + 1
         else if even f then f else f + 1)"

definition round_magnitude :: "rat \<Rightarrow> rat option" where
  \<comment> \<open>round to nearest, ties to even, with 53 significant bits; the least quantum is
      \<open>2 powi (-1074)\<close> (subnormals); \<open>None\<close> is overflow\<close>
  "round_magnitude a =
     (if a = 0 then Some 0
      else let q = max (ilog2 a - 52) (- 1074);
               r = of_int (round_half_even (a / 2 powi q)) * 2 powi q
           in if 2 powi 1024 \<le> r then None else Some r)"

definition round_double :: "bool \<Rightarrow> rat \<Rightarrow> double" where
  "round_double s a = (case round_magnitude a of None \<Rightarrow> Infinity s | Some r \<Rightarrow> Fin s r)"

definition literal :: "rat \<Rightarrow> double" where
  \<comment> \<open>the Number a non-negative decimal literal of the source denotes\<close>
  "literal r = round_double False r"

fun js_div :: "double \<Rightarrow> double \<Rightarrow> double" where
  "js_div NaN _ = NaN"
| "js_div _ NaN = NaN"
| "js_div (Infinity s) (Infinity t) = NaN"
| "js_div (Infinity s) (Fin t b) = Infinity (s \<noteq> t)"
| "js_div (Fin s a) (Infinity t) = Fin (s \<noteq> t) 0"
| "js_div (Fin s a) (Fin t b) =
     (if b = 0 then (if a = 0 then NaN else Infinity (s \<noteq> t))
      else round_double (s \<noteq> t) (a / b))"

fun js_le :: "double \<Rightarrow> double \<Rightarrow> bool" where
  "js_le NaN _ = False"
| "js_le _ NaN = False"
| "js_le (Infinity s) (Infinity t) = (s \<or> \<not> t)"
| "js_le (Infinity s) (Fin t b) = s"
| "js_le (Fin s a) (Infinity t) = (\<not> t)"
| "js_le (Fin s a) (Fin t b) = ((if s then - a else a) \<le> (if t then - b else b))"

definition js_ge :: "double \<Rightarrow> double \<Rightarrow> bool" where
  "js_ge x y = js_le y x"

definition number_of_int :: "int \<Rightarrow> double" where
  \<comment> \<open>the Number of an integer; exact for \<open>\<bar>i\<bar> < 2 ^ 53\<close>\<close>
  "number_of_int i = Fin (i < 0) (of_int \<bar>i\<bar>)"

subsection \<open>Strings, paths and random bytes\<close>

type_synonym byte = "8 word"

definition hex_digit :: "nat \<Rightarrow> char" where
  "hex_digit n = ''0123456789abcdef'' ! n"

definition toHex :: "byte list \<Rightarrow> string" where
  "toHex bs = concat (map (\<lambda>b. [hex_digit (unat b div 16), hex_digit (unat b mod 16)]) bs)"

fun split_on :: "char \<Rightarrow> string \<Rightarrow> string list" where
  "split_on c [] = [[]]"
| "split_on c (x # xs) =
     (if x = c then [] # split_on c xs
      else (x # hd (split_on c xs)) # tl (split_on c xs))"

fun join_with :: "string \<Rightarrow> string list \<Rightarrow> string" where
  "join_with sep [] = []"
| "join_with sep [s] = s"
| "join_with sep (s # t # ss) = s @ sep @ join_with sep (t # ss)"

text \<open>
  \<^verbatim>\<open>normalizeString\<close> of the \<^verbatim>\<open>path\<close> module, on the segments between slashes: empty
  segments and \<^verbatim>\<open>.\<close> are dropped, \<^verbatim>\<open>..\<close> removes the segment before it. The accumulator
  holds the segments kept so far, last first.
\<close>

fun normalizeString :: "bool \<Rightarrow> string list \<Rightarrow> string list \<Rightarrow> string list" where
  "normalizeString allowAboveRoot acc [] = rev acc"
| "normalizeString allowAboveRoot acc (s # ss) =
     (if s = [] \<or> s = ''.'' then normalizeString allowAboveRoot acc ss
      else if s = ''..'' then
        (case acc of
           [] \<Rightarrow> normalizeString allowAboveRoot (if allowAboveRoot then [''..''] else []) ss
         | a # as \<Rightarrow>
             if a = ''..''
             then normalizeString allowAboveRoot (if allowAboveRoot then ''..'' # acc else acc) ss
             else normalizeString allowAboveRoot as ss)
      else normalizeString allowAboveRoot (s # acc) ss)"

definition normalize :: "string \<Rightarrow> string" where
  "normalize path =
     (if path = [] then ''.''
      else
        let isAbsolute = (hd path = CHR ''/'');
            trailingSeparator = (last path = CHR ''/'');
            p = join_with ''/'' (normalizeString (\<not> isAbsolute) [] (split_on CHR ''/'' path))
        in if p = [] then (if isAbsolute then ''/'' else if trailingSeparator then ''./'' else ''.'')
           else (if isAbsolute then ''/'' else []) @ p @ (if trailingSeparator then ''/'' else []))"

definition path_join :: "string list \<Rightarrow> string" where
  "path_join args =
     (let joined = filter (\<lambda>a. a \<noteq> []) args
      in if joined = [] then ''.'' else normalize (join_with ''/'' joined))"

subsection \<open>Records of the service\<close>

record video =
  video_id :: string
  userID :: string
  videoURL :: "string option"

record File =
  file_size :: nat
  file_type :: string
  file_bytes :: string

datatype form_value = Text string | FileValue File

record 'h BunRequest =
  videoId :: "string option"
  headers :: 'h
  formData :: "string \<rightharpoonup> form_value"

record ApiConfig =
  jwtSecret :: string
  s3Bucket :: string
  s3Region :: string

record response =
  status :: nat
  body :: video

text \<open>
  The mutable parts the handler touches: the table of videos behind \<^verbatim>\<open>cfg.db\<close>, the local
  filesystem (path to content) and the objects of the store (bucket and key to content and
  content type).
\<close>

record state =
  db :: "string \<rightharpoonup> video"
  fs :: "string \<rightharpoonup> string"
  s3 :: "string \<times> string \<rightharpoonup> string \<times> string"

subsection \<open>Subprocesses\<close>

text \<open>
  What an external command does: its exit code (\<^verbatim>\<open>null\<close> when a signal ended it), the
  signal, the text it writes to its two output streams, and the content it leaves in its
  output file, if it writes one.
\<close>

record outcome =
  exit_code :: "int option"
  signal :: "string option"
  out_text :: string
  err_text :: string
  written :: "string option"

datatype ReadableStream = ReadableStream string

fun text_of :: "ReadableStream \<Rightarrow> string" where
  \<comment> \<open>\<^verbatim>\<open>await stream.text()\<close>\<close>
  "text_of (ReadableStream t) = t"

fun template_stream :: "ReadableStream \<Rightarrow> string" where
  \<comment> \<open>a stream object inside a template literal: \<^verbatim>\<open>Object.prototype.toString\<close>\<close>
  "template_stream (ReadableStream t) = ''[object ReadableStream]''"

datatype stdio = Pipe | Null

record Subprocess =
  exitCode :: "int option"
  signalCode :: "string option"
  stdout :: "ReadableStream option"
  stderr :: "ReadableStream option"

definition Bun_spawn :: "(string list \<Rightarrow> outcome) \<Rightarrow> string list \<Rightarrow> stdio \<Rightarrow> stdio \<Rightarrow> Subprocess" where
  \<comment> \<open>the process after \<^verbatim>\<open>await proc.exited\<close>; a piped stream is a stream object\<close>
  "Bun_spawn exec cmd out err =
     (let r = exec cmd
      in \<lparr> exitCode = exit_code r, signalCode = signal r,
           stdout = (case out of Pipe \<Rightarrow> Some (ReadableStream (out_text r)) | Null \<Rightarrow> None),
           stderr = (case err of Pipe \<Rightarrow> Some (ReadableStream (err_text r)) | Null \<Rightarrow> None) \<rparr>)"

subsection \<open>The environment of a run\<close>

record 'h env =
  getBearerToken :: "'h \<Rightarrow> error + string"
  validateJWT :: "string \<Rightarrow> string \<Rightarrow> error + string"
  exec :: "string list \<Rightarrow> outcome"
  JSON_parse :: "string \<Rightarrow> error + double \<times> double"
    \<comment> \<open>\<^verbatim>\<open>JSON.parse\<close> with the reviver of the source, then \<^verbatim>\<open>data.streams[0].width\<close> and
        \<^verbatim>\<open>.height\<close>; \<open>Inl\<close> when one of them throws\<close>
  s3_write :: "string \<Rightarrow> string \<Rightarrow> error option"
    \<comment> \<open>bucket and key to the rejection of the write, \<open>None\<close> when the store accepts it\<close>
  random :: "nat \<Rightarrow> byte"

definition randomBytes :: "'h env \<Rightarrow> nat \<Rightarrow> byte list" where
  "randomBytes e n = map (random e) [0..<n]"

text \<open>
  Modelled from the spec: the persistence collaborator \<^verbatim>\<open>../db/videos\<close> is not among the
  sources; the spec gives \<^verbatim>\<open>get(id) -> Record | absent\<close> and \<^verbatim>\<open>update(record) -> void\<close>.
\<close>

definition getVideo :: "(string \<rightharpoonup> video) \<Rightarrow> string \<Rightarrow> video option" where
  "getVideo d i = d i"

definition updateVideo :: "(string \<rightharpoonup> video) \<Rightarrow> video \<Rightarrow> (string \<rightharpoonup> video)" where
  "updateVideo d v = d(video_id v \<mapsto> v)"

text \<open>
  Modelled from the spec: \<^verbatim>\<open>respondWithJSON\<close> of \<^verbatim>\<open>./json\<close> is not among the sources; the
  response is the status with the record as its body.
\<close>

definition respondWithJSON :: "nat \<Rightarrow> video \<Rightarrow> response" where
  "respondWithJSON code v = \<lparr> status = code, body = v \<rparr>"

subsection \<open>The source functions\<close>

definition MAX_UPLOAD_LIMIT :: int where
  \<comment> \<open>\<^verbatim>\<open>1 << 30\<close>, a shift of 32-bit signed integers\<close>
  "MAX_UPLOAD_LIMIT = sint (push_bit 30 (1 :: 32 word))"

definition classify :: "double \<Rightarrow> double \<Rightarrow> string" where
  \<comment> \<open>lines 120 to 123 of \<^verbatim>\<open>getVideoAspectRatio\<close>\<close>
  "classify width height =
     (let fileRatio = js_div width height
      in if js_ge fileRatio (literal (170 / 100)) \<and> js_le fileRatio (literal (180 / 100)) then ''landscape''
         else if js_ge fileRatio (literal (50 / 100)) \<and> js_le fileRatio (literal (60 / 100)) then ''portrait''
         else ''other'')"

definition ffprobe_args :: "string \<Rightarrow> string list" where
  "ffprobe_args filePath =
     [''ffprobe'', ''-v'', ''error'', ''-select_streams'', ''v:0'', ''-show_entries'',
      ''stream=width,height'', ''-of'', ''json'', filePath]"

definition getVideoAspectRatio :: "'h env \<Rightarrow> string \<Rightarrow> error + string option" where
  \<comment> \<open>\<open>Inr None\<close> is the \<^verbatim>\<open>undefined\<close> the function returns when it falls off its end\<close>
  "getVideoAspectRatio e filePath =
     (let proc = Bun_spawn (exec e) (ffprobe_args filePath) Pipe Pipe
      in if exitCode proc = Some 0 then
           (case stdout proc of
              None \<Rightarrow> Inl (ParseError ''stdout'')
            | Some s \<Rightarrow>
                (case JSON_parse e (text_of s) of
                   Inl err \<Rightarrow> Inl err
                 | Inr (width, height) \<Rightarrow> Inr (Some (classify width height))))
         else Inr None)"

definition ffmpeg_args :: "string \<Rightarrow> string \<Rightarrow> string list" where
  "ffmpeg_args inFilePath outFilePath =
     [''ffmpeg'', ''-i'', inFilePath, ''-movflags'', ''faststart'', ''-map_metadata'', ''0'',
      ''-codec'', ''copy'', ''-f'', ''mp4'', outFilePath]"

definition outFilePath :: "string \<Rightarrow> string" where
  \<comment> \<open>line 137\<close>
  "outFilePath inFilePath = inFilePath @ ''.processed''"

definition processVideoForFastStart :: "'h env \<Rightarrow> string \<Rightarrow> state \<Rightarrow> (error + string) \<times> state" where
  \<comment> \<open>the state after the call holds what the tool left at the output path\<close>
  "processVideoForFastStart e inFilePath st =
     (let proc = Bun_spawn (exec e) (ffmpeg_args inFilePath (outFilePath inFilePath)) Null Pipe;
          st' = (case written (exec e (ffmpeg_args inFilePath (outFilePath inFilePath))) of
                   None \<Rightarrow> st
                 | Some c \<Rightarrow> st\<lparr> fs := (fs st)(outFilePath inFilePath \<mapsto> c) \<rparr>)
      in if exitCode proc \<noteq> Some 0 then
           (case stderr proc of
              Some s \<Rightarrow> (Inl (Error (template_stream s)), st')
            | None \<Rightarrow> (Inr (outFilePath inFilePath), st'))
         else (Inr (outFilePath inFilePath), st'))"

text \<open>
  Lines 15 to 47 of \<^verbatim>\<open>handlerUploadVideo\<close>: the checks, in the order of the source. None
  of them has an effect; the result is the identifier, the record and the file.
\<close>

definition validate ::
  "ApiConfig \<Rightarrow> 'h env \<Rightarrow> 'h BunRequest \<Rightarrow> state \<Rightarrow> error + string \<times> video \<times> File" where
  "validate cfg e req st =
     (case videoId req of
        None \<Rightarrow> Inl (BadRequestError ''invalid video id'')
      | Some vid \<Rightarrow>
          if vid = [] then Inl (BadRequestError ''invalid video id'')
          else
            (case getBearerToken e (headers req) of
               Inl err \<Rightarrow> Inl err
             | Inr token \<Rightarrow>
                 (case validateJWT e token (jwtSecret cfg) of
                    Inl err \<Rightarrow> Inl err
                  | Inr userId \<Rightarrow>
                      (case getVideo (db st) vid of
                         None \<Rightarrow> Inl (NotFoundError ''video not found'')
                       | Some vd \<Rightarrow>
                           if userID vd \<noteq> userId
                           then Inl (UserForbiddenError ''user not authorized'')
                           else
                             (case formData req ''video'' of
                                None \<Rightarrow> Inl (BadRequestError ''data is not a file'')
                              | Some (Text t) \<Rightarrow> Inl (BadRequestError ''data is not a file'')
                              | Some (FileValue file) \<Rightarrow>
                                  if int (file_size file) > MAX_UPLOAD_LIMIT
                                  then Inl (BadRequestError ''file exceeds upload limit (1GB)'')
                                  else if file_type file \<noteq> ''video/mp4''
                                  then Inl (BadRequestError ''wrong media type'')
                                  else Inr (vid, vd, file))))))"

definition tempFilePath :: "string \<Rightarrow> string" where
  \<comment> \<open>line 50\<close>
  "tempFilePath vid = path_join [''/tmp'', vid @ ''.mp4'']"

definition template_ratio :: "string option \<Rightarrow> string" where
  \<comment> \<open>\<^verbatim>\<open>${ratio}\<close> in a template literal\<close>
  "template_ratio r = (case r of None \<Rightarrow> ''undefined'' | Some l \<Rightarrow> l)"

definition storage_key :: "'h env \<Rightarrow> string option \<Rightarrow> string" where
  \<comment> \<open>line 56\<close>
  "storage_key e ratio = template_ratio ratio @ ''/'' @ toHex (randomBytes e 32) @ ''.mp4''"

definition locator :: "ApiConfig \<Rightarrow> string \<Rightarrow> string" where
  \<comment> \<open>line 66\<close>
  "locator cfg key = ''https://'' @ s3Bucket cfg @ ''.s3.'' @ s3Region cfg @ ''.amazonaws.com/'' @ key"

definition stage :: "string \<Rightarrow> File \<Rightarrow> state \<Rightarrow> state" where
  \<comment> \<open>line 51, \<^verbatim>\<open>Bun.write(tempFilePath, file)\<close>\<close>
  "stage vid file st = st\<lparr> fs := (fs st)(tempFilePath vid \<mapsto> file_bytes file) \<rparr>"

text \<open>
  Lines 49 to 72 of \<^verbatim>\<open>handlerUploadVideo\<close>: everything after the checks. A step that
  throws ends the run with the state as it is at that point.
\<close>

definition process_upload ::
  "ApiConfig \<Rightarrow> 'h env \<Rightarrow> string \<Rightarrow> video \<Rightarrow> File \<Rightarrow> state \<Rightarrow> (error + response) \<times> state" where
  "process_upload cfg e vid vd file st =
     (let mediaType = file_type file;
          st1 = stage vid file st
      in (case getVideoAspectRatio e (tempFilePath vid) of
            Inl err \<Rightarrow> (Inl err, st1)
          | Inr ratio \<Rightarrow>
              let key = storage_key e ratio
              in (case processVideoForFastStart e (tempFilePath vid) st1 of
                    (Inl err, st2) \<Rightarrow> (Inl err, st2)
                  | (Inr tempProcessedFilePath, st2) \<Rightarrow>
                      (case fs st2 tempProcessedFilePath of
                         None \<Rightarrow> (Inl (Error ''ENOENT''), st2)
                       | Some content \<Rightarrow>
                           (case s3_write e (s3Bucket cfg) key of
                              Some err \<Rightarrow> (Inl err, st2)
                            | None \<Rightarrow>
                                let st3 = st2\<lparr> s3 := (s3 st2)((s3Bucket cfg, key) \<mapsto> (content, mediaType)) \<rparr>;
                                    vd' = vd\<lparr> videoURL := Some (locator cfg key) \<rparr>;
                                    st4 = st3\<lparr> db := updateVideo (db st3) vd' \<rparr>;
                                    st5 = st4\<lparr> fs := (fs st4)(tempFilePath vid := None) \<rparr>
                                in (Inr (respondWithJSON 200 vd'), st5))))))"

definition handlerUploadVideo ::
  "ApiConfig \<Rightarrow> 'h env \<Rightarrow> 'h BunRequest \<Rightarrow> state \<Rightarrow> (error + response) \<times> state" where
  "handlerUploadVideo cfg e req st =
     (case validate cfg e req st of
        Inl err \<Rightarrow> (Inl err, st)
      | Inr (vid, vd, file) \<Rightarrow> process_upload cfg e vid vd file st)"

subsection \<open>Notions of the specification\<close>

text \<open>
  A request that carries a record identifier and whose bearer token the authentication
  collaborators accept for the principal \<open>uid\<close>.
\<close>

definition authenticated :: "ApiConfig \<Rightarrow> 'h env \<Rightarrow> 'h BunRequest \<Rightarrow> string \<Rightarrow> string \<Rightarrow> bool" where
  "authenticated cfg e req vid uid \<longleftrightarrow>
     videoId req = Some vid \<and> vid \<noteq> [] \<and>
     (case getBearerToken e (headers req) of
        Inl err \<Rightarrow> False
      | Inr token \<Rightarrow> validateJWT e token (jwtSecret cfg) = Inr uid)"

text \<open>
  The order of validations in the words of the specification (section 4.1, steps 1 to 3):
  declared size, declared media type, then the record with its not-found and forbidden
  checks. It is compared with \<open>validate\<close>, which follows the source.
\<close>

definition validate_as_specified ::
  "(string \<rightharpoonup> video) \<Rightarrow> string \<Rightarrow> string \<Rightarrow> File \<Rightarrow> error + string \<times> video \<times> File" where
  "validate_as_specified d vid uid file =
     (if 2 ^ 30 < file_size file then Inl (BadRequestError ''file exceeds upload limit (1GB)'')
      else if file_type file \<noteq> ''video/mp4'' then Inl (BadRequestError ''wrong media type'')
      else (case getVideo d vid of
              None \<Rightarrow> Inl (NotFoundError ''video not found'')
            | Some vd \<Rightarrow>
                if userID vd \<noteq> uid then Inl (UserForbiddenError ''user not authorized'')
                else Inr (vid, vd, file)))"

definition is_bad_request :: "error + 'a \<Rightarrow> bool" where
  "is_bad_request r = (case r of Inl (BadRequestError m) \<Rightarrow> True | _ \<Rightarrow> False)"

text \<open>
  The cleanup the specification asks for: neither the Staging File nor the Processed File
  of the record is on the filesystem.
\<close>

definition temp_files_removed :: "string \<Rightarrow> state \<Rightarrow> bool" where
  "temp_files_removed vid st \<longleftrightarrow>
     fs st (tempFilePath vid) = None \<and> fs st (outFilePath (tempFilePath vid)) = None"




subsection \<open>A sample deployment\<close>

text \<open>
  One record \<^verbatim>\<open>v1\<close> owned by \<^verbatim>\<open>u1\<close>, empty temporary directory and bucket. The tools exit
  with the given codes; the store rejects the write with the given error, if any. A probe
  that exits with 0 prints the dimensions 1920 by 1080 as the tool does for
  \<^verbatim>\<open>-show_entries stream=width,height -of json\<close> (white space left out), and the parser
  reads the dimensions from exactly that output; a probe that fails prints nothing.
\<close>

definition probe_json :: string where
  \<open>probe_json = ''{"programs":[],"streams":[{"width":1920,"height":1080}]}''\<close>

definition cfg0 :: ApiConfig where
  "cfg0 = \<lparr> jwtSecret = ''secret'', s3Bucket = ''tubely'', s3Region = ''eu-central-1'' \<rparr>"

definition video0 :: video where
  "video0 = \<lparr> video_id = ''v1'', userID = ''u1'', videoURL = None \<rparr>"

definition state0 :: state where
  "state0 = \<lparr> db = [''v1'' \<mapsto> video0], fs = Map.empty, s3 = Map.empty \<rparr>"

definition tool0 :: "int \<Rightarrow> int \<Rightarrow> string list \<Rightarrow> outcome" where
  "tool0 probe_exit remux_exit cmd =
     (if hd cmd = ''ffprobe''
      then \<lparr> exit_code = Some probe_exit, signal = None,
             out_text = (if probe_exit = 0 then probe_json else []),
             err_text = (if probe_exit = 0 then [] else ''Invalid data found''), written = None \<rparr>
      else \<lparr> exit_code = Some remux_exit, signal = None, out_text = [],
             err_text = (if remux_exit = 0 then [] else ''moov atom not found''),
             written = (if remux_exit = 0 then Some ''remuxed'' else None) \<rparr>)"

definition env0 :: "int \<Rightarrow> int \<Rightarrow> error option \<Rightarrow> string env" where
  "env0 probe_exit remux_exit rejection =
     \<lparr> getBearerToken = (\<lambda>h. if h = [] then Inl (AuthError ''no token'') else Inr h),
       validateJWT = (\<lambda>token secret. if token = ''token-u1'' then Inr ''u1''
                        else if token = ''token-u2'' then Inr ''u2''
                        else Inl (AuthError ''invalid token'')),
       exec = tool0 probe_exit remux_exit,
       JSON_parse = (\<lambda>out. if out = probe_json then Inr (number_of_int 1920, number_of_int 1080)
                        else Inl (ParseError ''JSON Parse error'')),
       s3_write = (\<lambda>bucket key. rejection),
       random = (\<lambda>i. 171) \<rparr>"

definition upload0 :: "string \<Rightarrow> string \<Rightarrow> nat \<Rightarrow> string \<Rightarrow> string BunRequest" where
  "upload0 vid token n bytes =
     \<lparr> videoId = Some vid, headers = token,
       formData = [''video'' \<mapsto> FileValue \<lparr> file_size = n, file_type = ''video/mp4'', file_bytes = bytes \<rparr>] \<rparr>"

definition file0 :: "nat \<Rightarrow> string \<Rightarrow> File" where
  "file0 n bytes = \<lparr> file_size = n, file_type = ''video/mp4'', file_bytes = bytes \<rparr>"

section \<open>Rounding and the classifier\<close>

text \<open>
  The binade of a positive rational, the bounds of rounding to nearest, and from them the
  comparison of a rounded quotient with a Number that is itself representable: rounding
  never crosses a representable value.
\<close>

lemma bit_length_bounds:
  "0 < n \<Longrightarrow> \<exists>k. bit_length n = Suc k \<and> 2 ^ k \<le> n \<and> n < 2 ^ Suc k"
proof (induction n rule: bit_length.induct)
  case (1 n)
  show ?case
  proof (cases "n div 2 \<le> 0")
    case True
    with 1(2) have "n = 1" by linarith
    then show ?thesis by (simp add: bit_length.simps)
  next
    case False
    then have "0 < n div 2" by simp
    with 1 obtain k where k: "bit_length (n div 2) = Suc k" "2 ^ k \<le> n div 2" "n div 2 < 2 ^ Suc k"
      by fastforce
    have "bit_length n = Suc (Suc k)"
      using 1(2) k(1) by (simp add: bit_length.simps [of n])
    moreover have "2 ^ Suc k \<le> n" using k(2) by simp
    moreover have "n < 2 ^ Suc (Suc k)" using k(3) by simp
    ultimately show ?thesis by blast
  qed
qed

lemma ilog2_bounds:
  assumes "0 < x"
  shows "2 powi ilog2 x \<le> x \<and> x < 2 powi (ilog2 x + 1)"
proof -
  obtain p q where pq: "quotient_of x = (p, q)" by force
  have q: "0 < q" using quotient_of_denom_pos [OF pq] .
  have x: "x = of_int p / of_int q" using quotient_of_div [OF pq] .
  have p: "0 < p" using assms q by (simp add: x zero_less_divide_iff)
  obtain a where a: "bit_length p = Suc a" "2 ^ a \<le> p" "p < 2 ^ Suc a"
    using bit_length_bounds [OF p] by blast
  obtain b where b: "bit_length q = Suc b" "2 ^ b \<le> q" "q < 2 ^ Suc b"
    using bit_length_bounds [OF q] by blast
  let ?d = "int (bit_length p) - int (bit_length q)"
  have d: "?d = int a - int b" by (simp add: a b)
  have pr: "(2::rat) ^ a \<le> of_int p" "(of_int p :: rat) < 2 ^ Suc a"
    using a(2,3) by (metis of_int_le_iff of_int_numeral of_int_power, metis of_int_less_iff of_int_numeral of_int_power)
  have qr: "(2::rat) ^ b \<le> of_int q" "(of_int q :: rat) < 2 ^ Suc b" "(0::rat) < of_int q"
    using b(2,3) q by (metis of_int_le_iff of_int_numeral of_int_power, metis of_int_less_iff of_int_numeral of_int_power, simp)
  have up: "x < 2 powi (?d + 1)"
  proof -
    have "of_int p * (2::rat) ^ b < 2 ^ Suc a * of_int q"
      using mult_less_le_imp_less [OF pr(2) qr(1)] p by simp
    then have "x < 2 ^ Suc a / 2 ^ b"
      using qr(3) by (simp add: x field_simps)
    also have "\<dots> = 2 powi (?d + 1)"
      by (simp add: d power_int_diff power_int_add)
    finally show ?thesis .
  qed
  have lo: "2 powi (?d - 1) < x"
  proof -
    have "(2::rat) ^ a * of_int q < of_int p * 2 ^ Suc b"
      using mult_le_less_imp_less [OF pr(1) qr(2)] qr(3) by simp
    then have "(2::rat) ^ a / 2 ^ Suc b < x"
      using qr(3) by (simp add: x field_simps)
    moreover have "(2::rat) ^ a / 2 ^ Suc b = 2 powi (?d - 1)"
      by (simp add: d power_int_diff power_int_add)
    ultimately show ?thesis by simp
  qed
  show ?thesis
  proof (cases "2 powi ?d \<le> x")
    case True
    then have "ilog2 x = ?d" by (simp add: ilog2_def pq)
    with True up show ?thesis by simp
  next
    case False
    then have "ilog2 x = ?d - 1" by (simp add: ilog2_def pq)
    with False lo show ?thesis by simp
  qed
qed

lemma ilog2_unique:
  assumes "0 < x" and "2 powi e \<le> x" and "x < 2 powi (e + 1)"
  shows "ilog2 x = e"
proof -
  let ?f = "ilog2 x"
  have b: "2 powi ?f \<le> x" "x < 2 powi (?f + 1)"
    using ilog2_bounds [OF assms(1)] by auto
  have "\<not> ?f < e"
  proof
    assume "?f < e"
    then have "(2::rat) powi (?f + 1) \<le> 2 powi e"
      by (intro power_int_increasing) auto
    with b(2) assms(2) show False by linarith
  qed
  moreover have "\<not> e < ?f"
  proof
    assume "e < ?f"
    then have "(2::rat) powi (e + 1) \<le> 2 powi ?f"
      by (intro power_int_increasing) auto
    with b(1) assms(3) show False by linarith
  qed
  ultimately show ?thesis by linarith
qed

lemma ilog2_range:
  assumes "0 < x" and "2 powi a \<le> x" and "x < 2 powi b"
  shows "a \<le> ilog2 x \<and> ilog2 x < b"
proof -
  let ?f = "ilog2 x"
  have f: "2 powi ?f \<le> x" "x < 2 powi (?f + 1)"
    using ilog2_bounds [OF assms(1)] by auto
  have "\<not> ?f < a"
  proof
    assume "?f < a"
    then have "(2::rat) powi (?f + 1) \<le> 2 powi a"
      by (intro power_int_increasing) auto
    with f(2) assms(2) show False by linarith
  qed
  moreover have "\<not> b \<le> ?f"
  proof
    assume "b \<le> ?f"
    then have "(2::rat) powi b \<le> 2 powi ?f"
      by (intro power_int_increasing) auto
    with f(1) assms(3) show False by linarith
  qed
  ultimately show ?thesis by linarith
qed

lemma round_half_even_le: "x \<le> of_int k \<Longrightarrow> round_half_even x \<le> k"
proof -
  assume x: "x \<le> of_int k"
  then have f: "\<lfloor>x\<rfloor> \<le> k" by (simp add: floor_le_iff)
  show ?thesis
  proof (cases "\<lfloor>x\<rfloor> = k")
    case True
    with x have "x - of_int \<lfloor>x\<rfloor> \<le> 0" by simp
    then show ?thesis using True by (simp add: round_half_even_def Let_def)
  next
    case False
    with f have "\<lfloor>x\<rfloor> + 1 \<le> k" by simp
    then show ?thesis by (simp add: round_half_even_def Let_def)
  qed
qed

lemma round_half_even_ge: "of_int k \<le> x \<Longrightarrow> k \<le> round_half_even x"
proof -
  assume "of_int k \<le> x"
  then have "k \<le> \<lfloor>x\<rfloor>" by (simp add: le_floor_iff)
  then show ?thesis by (simp add: round_half_even_def Let_def)
qed

lemma round_half_even_eval:
  assumes "of_int n - 1 / 2 < x" and "x < of_int n + 1 / 2"
  shows "round_half_even x = n"
proof (cases "of_int n \<le> x")
  case True
  then have "\<lfloor>x\<rfloor> = n" using assms(2) by (intro floor_unique) auto
  then show ?thesis using assms(2) by (simp add: round_half_even_def Let_def)
next
  case False
  then have "\<lfloor>x\<rfloor> = n - 1" using assms(1) by (intro floor_unique) auto
  then show ?thesis using assms(1) by (simp add: round_half_even_def Let_def)
qed

lemma powi_split: "(2::rat) powi (e + 1) = 2 ^ 53 * 2 powi (e - 52)"
proof -
  have "e + 1 = 53 + (e - 52)" by simp
  then have "(2::rat) powi (e + 1) = 2 powi (53 + (e - 52))" by (rule arg_cong)
  also have "\<dots> = 2 powi 53 * 2 powi (e - 52)" by (rule power_int_add) simp
  finally show ?thesis by simp
qed

lemma powi_split0: "(2::rat) powi e = 2 ^ 52 * 2 powi (e - 52)"
proof -
  have "e = 52 + (e - 52)" by simp
  then have "(2::rat) powi e = 2 powi (52 + (e - 52))" by (rule arg_cong)
  also have "\<dots> = 2 powi 52 * 2 powi (e - 52)" by (rule power_int_add) simp
  finally show ?thesis by simp
qed

lemma round_magnitude_normal:
  assumes "0 < x" and "- 1022 \<le> ilog2 x" and "ilog2 x \<le> 1022"
  shows "round_magnitude x =
    Some (of_int (round_half_even (x / 2 powi (ilog2 x - 52))) * 2 powi (ilog2 x - 52))"
proof -
  let ?e = "ilog2 x"
  let ?u = "(2::rat) powi (?e - 52)"
  let ?n = "round_half_even (x / ?u)"
  have u: "0 < ?u" by simp
  have "x < 2 ^ 53 * ?u"
    using ilog2_bounds [OF assms(1)] by (simp add: powi_split)
  then have "x / ?u \<le> of_int (2 ^ 53)"
    using u by (simp add: field_simps)
  then have "?n \<le> 2 ^ 53" by (rule round_half_even_le)
  then have "(of_int ?n :: rat) \<le> 2 ^ 53"
    by (metis of_int_le_iff of_int_numeral of_int_power)
  then have "of_int ?n * ?u \<le> 2 ^ 53 * ?u"
    using u by (simp add: mult_right_mono)
  also have "\<dots> = 2 powi (?e + 1)" by (simp add: powi_split)
  also have "\<dots> \<le> 2 powi 1023"
    using assms(3) by (intro power_int_increasing) auto
  also have "\<dots> < 2 powi 1024"
    by (intro power_int_strict_increasing) auto
  finally have "\<not> 2 powi 1024 \<le> of_int ?n * ?u" by simp
  moreover have "max (?e - 52) (- 1074) = ?e - 52" using assms(2) by simp
  ultimately show ?thesis
    using assms(1) by (simp add: round_magnitude_def Let_def)
qed

lemma round_magnitude_le:
  assumes "0 < x" and "- 1022 \<le> ilog2 x"
    and "x \<le> of_int k * 2 powi (E - 52)" and "2 ^ 52 \<le> k" and "k < 2 ^ 53" and "E \<le> 1022"
  shows "\<exists>r. round_magnitude x = Some r \<and> r \<le> of_int k * 2 powi (E - 52)"
proof -
  let ?e = "ilog2 x"
  let ?u = "(2::rat) powi (?e - 52)"
  let ?n = "round_half_even (x / ?u)"
  have u: "0 < ?u" by simp
  have kr: "(2::rat) ^ 52 \<le> of_int k" "(of_int k :: rat) < 2 ^ 53"
    using assms(4,5) by (metis of_int_le_iff of_int_numeral of_int_power,
        metis of_int_less_iff of_int_numeral of_int_power)
  have b: "2 powi ?e \<le> x" "x < 2 powi (?e + 1)"
    using ilog2_bounds [OF assms(1)] by auto
  have "of_int k * (2::rat) powi (E - 52) < 2 ^ 53 * 2 powi (E - 52)"
    using kr(2) by (simp add: mult_strict_right_mono)
  then have c_lt: "of_int k * (2::rat) powi (E - 52) < 2 powi (E + 1)"
    by (simp add: powi_split)
  have eE: "?e \<le> E"
  proof (rule ccontr)
    assume "\<not> ?e \<le> E"
    then have "(2::rat) powi (E + 1) \<le> 2 powi ?e"
      by (intro power_int_increasing) auto
    with b(1) assms(3) c_lt show False by linarith
  qed
  then have e: "?e \<le> 1022" using assms(6) by simp
  have r: "round_magnitude x = Some (of_int ?n * ?u)"
    by (rule round_magnitude_normal [OF assms(1,2) e])
  have "of_int ?n * ?u \<le> of_int k * 2 powi (E - 52)"
  proof (cases "?e = E")
    case True
    have "x / ?u \<le> of_int k"
      using assms(3) u by (simp add: True field_simps)
    then have "?n \<le> k" by (rule round_half_even_le)
    then have "(of_int ?n :: rat) \<le> of_int k" by simp
    then show ?thesis using u by (simp add: True mult_right_mono)
  next
    case False
    with eE have lt: "?e + 1 \<le> E" by simp
    have "x < 2 ^ 53 * ?u" using b(2) by (simp add: powi_split)
    then have "x / ?u \<le> of_int (2 ^ 53)" using u by (simp add: field_simps)
    then have "?n \<le> 2 ^ 53" by (rule round_half_even_le)
    then have "(of_int ?n :: rat) \<le> 2 ^ 53"
      by (metis of_int_le_iff of_int_numeral of_int_power)
    then have "of_int ?n * ?u \<le> 2 ^ 53 * ?u" using u by (simp add: mult_right_mono)
    also have "\<dots> = 2 powi (?e + 1)" by (simp add: powi_split)
    also have "\<dots> \<le> 2 powi E" using lt by (intro power_int_increasing) auto
    also have "\<dots> = 2 ^ 52 * 2 powi (E - 52)" by (rule powi_split0)
    also have "\<dots> \<le> of_int k * 2 powi (E - 52)"
      using kr(1) by (simp add: mult_right_mono)
    finally show ?thesis .
  qed
  with r show ?thesis by blast
qed

lemma round_magnitude_ge:
  assumes "0 < x" and "ilog2 x \<le> 1022"
    and "of_int k * 2 powi (E - 52) \<le> x" and "2 ^ 52 \<le> k" and "k < 2 ^ 53" and "- 1022 \<le> E"
  shows "\<exists>r. round_magnitude x = Some r \<and> of_int k * 2 powi (E - 52) \<le> r"
proof -
  let ?e = "ilog2 x"
  let ?u = "(2::rat) powi (?e - 52)"
  let ?n = "round_half_even (x / ?u)"
  have u: "0 < ?u" by simp
  have kr: "(2::rat) ^ 52 \<le> of_int k" "(of_int k :: rat) < 2 ^ 53"
    using assms(4,5) by (metis of_int_le_iff of_int_numeral of_int_power,
        metis of_int_less_iff of_int_numeral of_int_power)
  have b: "2 powi ?e \<le> x" "x < 2 powi (?e + 1)"
    using ilog2_bounds [OF assms(1)] by auto
  have "2 ^ 52 * (2::rat) powi (E - 52) \<le> of_int k * 2 powi (E - 52)"
    using kr(1) by (simp add: mult_right_mono)
  then have c_ge: "(2::rat) powi E \<le> of_int k * 2 powi (E - 52)"
    by (simp add: powi_split0 [of E])
  have Ee: "E \<le> ?e"
  proof (rule ccontr)
    assume "\<not> E \<le> ?e"
    then have "(2::rat) powi (?e + 1) \<le> 2 powi E"
      by (intro power_int_increasing) auto
    with b(2) assms(3) c_ge show False by linarith
  qed
  then have e: "- 1022 \<le> ?e" using assms(6) by simp
  have r: "round_magnitude x = Some (of_int ?n * ?u)"
    by (rule round_magnitude_normal [OF assms(1) e assms(2)])
  have "of_int k * 2 powi (E - 52) \<le> of_int ?n * ?u"
  proof (cases "?e = E")
    case True
    have "of_int k \<le> x / ?u"
      using assms(3) u by (simp add: True field_simps)
    then have "k \<le> ?n" by (rule round_half_even_ge)
    then have "(of_int k :: rat) \<le> of_int ?n" by simp
    then show ?thesis using u by (simp add: True mult_right_mono)
  next
    case False
    with Ee have lt: "E + 1 \<le> ?e" by simp
    have "of_int k * (2::rat) powi (E - 52) \<le> 2 ^ 53 * 2 powi (E - 52)"
      using kr(2) by (simp add: mult_right_mono)
    also have "\<dots> = 2 powi (E + 1)" by (simp add: powi_split)
    also have "\<dots> \<le> 2 powi ?e" using lt by (intro power_int_increasing) auto
    also have "\<dots> = 2 ^ 52 * ?u" by (rule powi_split0)
    also have "\<dots> \<le> of_int ?n * ?u"
    proof -
      have "2 ^ 52 * ?u \<le> x" using b(1) by (simp add: powi_split0 [of ?e])
      then have "of_int (2 ^ 52) \<le> x / ?u" using u by (simp add: field_simps)
      then have "2 ^ 52 \<le> ?n" by (rule round_half_even_ge)
      then have "(2::rat) ^ 52 \<le> of_int ?n"
        by (metis of_int_le_iff of_int_numeral of_int_power)
      then show ?thesis using u by (simp add: mult_right_mono)
    qed
    finally show ?thesis .
  qed
  with r show ?thesis by blast
qed

lemma round_double_le:
  assumes "0 < x" and "- 1022 \<le> ilog2 x"
    and "x \<le> of_int k * 2 powi (E - 52)" and "2 ^ 52 \<le> k" and "k < 2 ^ 53" and "E \<le> 1022"
  shows "\<exists>r. round_double s x = Fin s r \<and> r \<le> of_int k * 2 powi (E - 52)"
  using round_magnitude_le [OF assms] by (auto simp: round_double_def)

lemma round_double_ge:
  assumes "0 < x" and "ilog2 x \<le> 1022"
    and "of_int k * 2 powi (E - 52) \<le> x" and "2 ^ 52 \<le> k" and "k < 2 ^ 53" and "- 1022 \<le> E"
  shows "\<exists>r. round_double s x = Fin s r \<and> of_int k * 2 powi (E - 52) \<le> r"
  using round_magnitude_ge [OF assms] by (auto simp: round_double_def)

lemma round_double_eval:
  assumes "0 < x" and "2 powi e \<le> x" and "x < 2 powi (e + 1)"
    and "- 1022 \<le> e" and "e \<le> 1022"
    and "of_int n - 1 / 2 < x / 2 powi (e - 52)" and "x / 2 powi (e - 52) < of_int n + 1 / 2"
  shows "round_double s x = Fin s (of_int n * 2 powi (e - 52))"
proof -
  have e: "ilog2 x = e" by (rule ilog2_unique [OF assms(1-3)])
  have "round_half_even (x / 2 powi (e - 52)) = n"
    by (rule round_half_even_eval [OF assms(6,7)])
  then show ?thesis
    using round_magnitude_normal [of x] assms(1,4,5) by (simp add: e round_double_def)
qed

text \<open>
  The four Numbers the source writes as \<^verbatim>\<open>1.70\<close>, \<^verbatim>\<open>1.80\<close>, \<^verbatim>\<open>0.50\<close> and \<^verbatim>\<open>0.60\<close>. Only
  \<^verbatim>\<open>0.50\<close> is the decimal value itself; \<^verbatim>\<open>1.70\<close> and \<^verbatim>\<open>0.60\<close> lie just below theirs and
  \<^verbatim>\<open>1.80\<close> just above.
\<close>

lemma literal_170: "literal (170 / 100) = Fin False (7656119366529843 / 2 ^ 52)"
  using round_double_eval [of "170 / 100" 0 7656119366529843 False]
  by (simp add: literal_def power_int_minus)

lemma literal_180: "literal (180 / 100) = Fin False (8106479329266893 / 2 ^ 52)"
  using round_double_eval [of "180 / 100" 0 8106479329266893 False]
  by (simp add: literal_def power_int_minus)

lemma literal_50: "literal (50 / 100) = Fin False (1 / 2)"
  using round_double_eval [of "50 / 100" "- 1" "2 ^ 52" False]
  by (simp add: literal_def power_int_minus)

lemma literal_60: "literal (60 / 100) = Fin False (5404319552844595 / 2 ^ 53)"
  using round_double_eval [of "60 / 100" "- 1" 5404319552844595 False]
  by (simp add: literal_def power_int_minus)

text \<open>
  Integer dimensions below \<open>2 ^ 48\<close>: the rounded quotient is on the same side of each of the
  four Numbers as the exact fraction is of the decimal value.
\<close>

lemma ratio_in_range:
  assumes "0 < w" and "w < 2 ^ 48" and "0 < h" and "h < 2 ^ 48"
  shows "0 < (of_int w / of_int h :: rat)"
    and "- 1022 \<le> ilog2 (of_int w / of_int h)" and "ilog2 (of_int w / of_int h) \<le> 1022"
proof -
  let ?x = "of_int w / of_int h :: rat"
  have wr: "(1::rat) \<le> of_int w" "(of_int w :: rat) < 2 ^ 48"
    using assms(1,2) by (simp, metis of_int_less_iff of_int_numeral of_int_power)
  have hr: "(1::rat) \<le> of_int h" "(of_int h :: rat) < 2 ^ 48"
    using assms(3,4) by (simp, metis of_int_less_iff of_int_numeral of_int_power)
  show pos: "0 < ?x" using wr hr by simp
  have "1 / 2 ^ 48 \<le> ?x"
    using wr hr by (simp add: field_simps) 
  then have lo: "2 powi (- 48) \<le> ?x" by (simp add: power_int_minus field_simps)
  have "?x \<le> of_int w" using wr hr by (simp add: field_simps mult_le_cancel_left1)
  then have hi: "?x < 2 powi 48" using wr by simp
  from ilog2_range [OF pos lo hi]
  show "- 1022 \<le> ilog2 ?x" and "ilog2 ?x \<le> 1022" by simp_all
qed

lemma below_threshold:
  assumes "0 < x" and "- 1022 \<le> ilog2 x"
    and "x \<le> of_int k * 2 powi (E - 52)" and "2 ^ 52 \<le> k" and "k < 2 ^ 53" and "E \<le> 1022"
  shows "of_int k * 2 powi (E - 52) \<le> d \<Longrightarrow> js_le (round_double False x) (Fin False d)"
    and "of_int k * 2 powi (E - 52) < d \<Longrightarrow> \<not> js_ge (round_double False x) (Fin False d)"
  using round_double_le [OF assms, of False] by (auto simp: js_ge_def)

lemma above_threshold:
  assumes "0 < x" and "ilog2 x \<le> 1022"
    and "of_int k * 2 powi (E - 52) \<le> x" and "2 ^ 52 \<le> k" and "k < 2 ^ 53" and "- 1022 \<le> E"
  shows "d \<le> of_int k * 2 powi (E - 52) \<Longrightarrow> js_ge (round_double False x) (Fin False d)"
    and "d < of_int k * 2 powi (E - 52) \<Longrightarrow> \<not> js_le (round_double False x) (Fin False d)"
  using round_double_ge [OF assms, of False] by (auto simp: js_ge_def)

lemma frac_le_iff:
  "0 < h \<Longrightarrow> 0 < d \<Longrightarrow> ((of_int w / of_int h :: rat) \<le> of_int n / of_int d) = (w * d \<le> n * h)"
proof -
  assume "0 < h" "0 < d"
  then have "((of_int w / of_int h :: rat) \<le> of_int n / of_int d)
      = ((of_int (w * d) :: rat) \<le> of_int (n * h))"
    by (simp add: field_simps)
  then show ?thesis by (simp only: of_int_le_iff)
qed

lemma frac_ge_iff:
  "0 < h \<Longrightarrow> 0 < d \<Longrightarrow> ((of_int n / of_int d :: rat) \<le> of_int w / of_int h) = (n * h \<le> w * d)"
proof -
  assume "0 < h" "0 < d"
  then have "((of_int n / of_int d :: rat) \<le> of_int w / of_int h)
      = ((of_int (n * h) :: rat) \<le> of_int (w * d))"
    by (simp add: field_simps)
  then show ?thesis by (simp only: of_int_le_iff)
qed

lemma ge_170:
  assumes "0 < w" and "w < 2 ^ 48" and "0 < h" and "h < 2 ^ 48"
  shows "js_ge (round_double False (of_int w / of_int h)) (literal (170 / 100))
         \<longleftrightarrow> 17 * h \<le> 10 * w"
proof (cases "17 * h \<le> 10 * w")
  case True
  then have "7656119366529843 * h \<le> w * 2 ^ 52" using assms by simp
  then have "(of_int 7656119366529843 / of_int (2 ^ 52) :: rat) \<le> of_int w / of_int h"
    using assms(3) by (subst frac_ge_iff) simp_all
  then have "of_int 7656119366529843 * 2 powi (0 - 52) \<le> (of_int w / of_int h :: rat)"
    by (simp add: power_int_minus field_simps)
  from above_threshold(1) [OF ratio_in_range(1,3) [OF assms] this, of "7656119366529843 / 2 ^ 52"]
  show ?thesis unfolding literal_170 using True by (simp add: power_int_minus field_simps)
next
  case False
  then have "w * 2 ^ 52 \<le> 7656119366529842 * h" using assms by simp
  then have "(of_int w / of_int h :: rat) \<le> of_int 7656119366529842 / of_int (2 ^ 52)"
    using assms(3) by (subst frac_le_iff) simp_all
  then have "(of_int w / of_int h :: rat) \<le> of_int 7656119366529842 * 2 powi (0 - 52)"
    by (simp add: power_int_minus field_simps)
  from below_threshold(2) [OF ratio_in_range(1,2) [OF assms] this, of "7656119366529843 / 2 ^ 52"]
  show ?thesis unfolding literal_170 using False by (simp add: power_int_minus field_simps)
qed

lemma le_180:
  assumes "0 < w" and "w < 2 ^ 48" and "0 < h" and "h < 2 ^ 48"
  shows "js_le (round_double False (of_int w / of_int h)) (literal (180 / 100))
         \<longleftrightarrow> 10 * w \<le> 18 * h"
proof (cases "10 * w \<le> 18 * h")
  case True
  then have "w * 2 ^ 52 \<le> 8106479329266893 * h" using assms by simp
  then have "(of_int w / of_int h :: rat) \<le> of_int 8106479329266893 / of_int (2 ^ 52)"
    using assms(3) by (subst frac_le_iff) simp_all
  then have "(of_int w / of_int h :: rat) \<le> of_int 8106479329266893 * 2 powi (0 - 52)"
    by (simp add: power_int_minus field_simps)
  from below_threshold(1) [OF ratio_in_range(1,2) [OF assms] this, of "8106479329266893 / 2 ^ 52"]
  show ?thesis unfolding literal_180 using True by (simp add: power_int_minus field_simps)
next
  case False
  then have "8106479329266894 * h \<le> w * 2 ^ 52" using assms by simp
  then have "(of_int 8106479329266894 / of_int (2 ^ 52) :: rat) \<le> of_int w / of_int h"
    using assms(3) by (subst frac_ge_iff) simp_all
  then have "of_int 8106479329266894 * 2 powi (0 - 52) \<le> (of_int w / of_int h :: rat)"
    by (simp add: power_int_minus field_simps)
  from above_threshold(2) [OF ratio_in_range(1,3) [OF assms] this, of "8106479329266893 / 2 ^ 52"]
  show ?thesis unfolding literal_180 using False by (simp add: power_int_minus field_simps)
qed

lemma ge_50:
  assumes "0 < w" and "w < 2 ^ 48" and "0 < h" and "h < 2 ^ 48"
  shows "js_ge (round_double False (of_int w / of_int h)) (literal (50 / 100))
         \<longleftrightarrow> h \<le> 2 * w"
proof (cases "h \<le> 2 * w")
  case True
  then have "2 ^ 52 * h \<le> w * 2 ^ 53" using assms by simp
  then have "(of_int (2 ^ 52) / of_int (2 ^ 53) :: rat) \<le> of_int w / of_int h"
    using assms(3) by (subst frac_ge_iff) simp_all
  then have "of_int (2 ^ 52) * 2 powi (- 1 - 52) \<le> (of_int w / of_int h :: rat)"
    by (simp add: power_int_minus field_simps)
  from above_threshold(1) [OF ratio_in_range(1,3) [OF assms] this, of "1 / 2"]
  show ?thesis unfolding literal_50 using True by (simp add: power_int_minus field_simps)
next
  case False
  then have "w * 2 ^ 54 \<le> 9007199254740991 * h" using assms by simp
  then have "(of_int w / of_int h :: rat) \<le> of_int 9007199254740991 / of_int (2 ^ 54)"
    using assms(3) by (subst frac_le_iff) simp_all
  then have "(of_int w / of_int h :: rat) \<le> of_int 9007199254740991 * 2 powi (- 2 - 52)"
    by (simp add: power_int_minus field_simps)
  from below_threshold(2) [OF ratio_in_range(1,2) [OF assms] this, of "1 / 2"]
  show ?thesis unfolding literal_50 using False by (simp add: power_int_minus field_simps)
qed

lemma le_60:
  assumes "0 < w" and "w < 2 ^ 48" and "0 < h" and "h < 2 ^ 48"
  shows "js_le (round_double False (of_int w / of_int h)) (literal (60 / 100))
         \<longleftrightarrow> 5 * w \<le> 3 * h"
proof (cases "5 * w \<le> 3 * h")
  case True
  show ?thesis
  proof (cases "5 * w = 3 * h")
    case eq: True
    then have "(of_int (5 * w) :: rat) = of_int (3 * h)" by simp
    then have x: "(of_int w / of_int h :: rat) = 60 / 100"
      using assms(3) by (simp add: field_simps)
    have "round_double False (of_int w / of_int h) = literal (60 / 100)"
      by (simp only: x literal_def)
    then show ?thesis
      unfolding literal_60 using True by simp
  next
    case False
    with True have "w * 2 ^ 53 \<le> 5404319552844595 * h" using assms by simp
    then have "(of_int w / of_int h :: rat) \<le> of_int 5404319552844595 / of_int (2 ^ 53)"
      using assms(3) by (subst frac_le_iff) simp_all
    then have "(of_int w / of_int h :: rat) \<le> of_int 5404319552844595 * 2 powi (- 1 - 52)"
      by (simp add: power_int_minus field_simps)
    from below_threshold(1) [OF ratio_in_range(1,2) [OF assms] this, of "5404319552844595 / 2 ^ 53"]
    show ?thesis unfolding literal_60 using True by (simp add: power_int_minus field_simps)
  qed
next
  case False
  then have "5404319552844596 * h \<le> w * 2 ^ 53" using assms by simp
  then have "(of_int 5404319552844596 / of_int (2 ^ 53) :: rat) \<le> of_int w / of_int h"
    using assms(3) by (subst frac_ge_iff) simp_all
  then have "of_int 5404319552844596 * 2 powi (- 1 - 52) \<le> (of_int w / of_int h :: rat)"
    by (simp add: power_int_minus field_simps)
  from above_threshold(2) [OF ratio_in_range(1,3) [OF assms] this, of "5404319552844595 / 2 ^ 53"]
  show ?thesis unfolding literal_60 using False by (simp add: power_int_minus field_simps)
qed

lemma classify_exact:
  assumes "0 < w" and "w < 2 ^ 48" and "0 < h" and "h < 2 ^ 48"
  shows "classify (number_of_int w) (number_of_int h) =
     (if 17 * h \<le> 10 * w \<and> 10 * w \<le> 18 * h then ''landscape''
      else if h \<le> 2 * w \<and> 5 * w \<le> 3 * h then ''portrait''
      else ''other'')"
proof -
  have "js_div (number_of_int w) (number_of_int h) = round_double False (of_int w / of_int h)"
    using assms(1,3) by (simp add: number_of_int_def)
  then show ?thesis
    unfolding classify_def Let_def
    by (simp only: ge_170 [OF assms] le_180 [OF assms] ge_50 [OF assms] le_60 [OF assms])
qed


lemma intervals_disjoint:
  "js_le r (literal (60 / 100)) \<Longrightarrow> \<not> js_ge r (literal (170 / 100))"
  unfolding literal_60 literal_170 js_ge_def
  by (cases r) (auto split: if_splits)

text \<open>
  Claim C4. The classifier returns \<^verbatim>\<open>landscape\<close> exactly when the ratio lies between \<^verbatim>\<open>1.70\<close>
  and \<^verbatim>\<open>1.80\<close>, \<^verbatim>\<open>portrait\<close> exactly when it lies between \<^verbatim>\<open>0.50\<close> and \<^verbatim>\<open>0.60\<close>, and
  \<^verbatim>\<open>other\<close> otherwise, the four bounds included. The ratio is the Number
  \<^verbatim>\<open>width / height\<close> and the bounds are the Numbers of the four literals, for every pair of
  Numbers. For positive integer dimensions below \<open>2 ^ 48\<close> the same holds of the exact
  fraction and the exact decimal bounds.
\<close>

theorem classifier_intervals:
  "(classify width height = ''landscape'' \<longleftrightarrow>
      js_ge (js_div width height) (literal (170 / 100)) \<and> js_le (js_div width height) (literal (180 / 100)))
   \<and> (classify width height = ''portrait'' \<longleftrightarrow>
      js_ge (js_div width height) (literal (50 / 100)) \<and> js_le (js_div width height) (literal (60 / 100)))
   \<and> (classify width height = ''other'' \<longleftrightarrow>
      \<not> (js_ge (js_div width height) (literal (170 / 100)) \<and> js_le (js_div width height) (literal (180 / 100)))
      \<and> \<not> (js_ge (js_div width height) (literal (50 / 100)) \<and> js_le (js_div width height) (literal (60 / 100))))
   \<and> (0 < w \<and> w < 2 ^ 48 \<and> 0 < h \<and> h < 2 ^ 48 \<longrightarrow>
        (classify (number_of_int w) (number_of_int h) = ''landscape'' \<longleftrightarrow>
           170 / 100 \<le> (of_int w / of_int h :: rat) \<and> (of_int w / of_int h :: rat) \<le> 180 / 100)
      \<and> (classify (number_of_int w) (number_of_int h) = ''portrait'' \<longleftrightarrow>
           50 / 100 \<le> (of_int w / of_int h :: rat) \<and> (of_int w / of_int h :: rat) \<le> 60 / 100)
      \<and> (classify (number_of_int w) (number_of_int h) = ''other'' \<longleftrightarrow>
           \<not> (170 / 100 \<le> (of_int w / of_int h :: rat) \<and> (of_int w / of_int h :: rat) \<le> 180 / 100)
           \<and> \<not> (50 / 100 \<le> (of_int w / of_int h :: rat) \<and> (of_int w / of_int h :: rat) \<le> 60 / 100)))"
proof -
  have float: "(classify width height = ''landscape'' \<longleftrightarrow>
      js_ge (js_div width height) (literal (170 / 100)) \<and> js_le (js_div width height) (literal (180 / 100)))
   \<and> (classify width height = ''portrait'' \<longleftrightarrow>
      js_ge (js_div width height) (literal (50 / 100)) \<and> js_le (js_div width height) (literal (60 / 100)))
   \<and> (classify width height = ''other'' \<longleftrightarrow>
      \<not> (js_ge (js_div width height) (literal (170 / 100)) \<and> js_le (js_div width height) (literal (180 / 100)))
      \<and> \<not> (js_ge (js_div width height) (literal (50 / 100)) \<and> js_le (js_div width height) (literal (60 / 100))))"
    using intervals_disjoint [of "js_div width height"]
    unfolding classify_def Let_def by auto
  have exact: "(classify (number_of_int w) (number_of_int h) = ''landscape'' \<longleftrightarrow>
           170 / 100 \<le> (of_int w / of_int h :: rat) \<and> (of_int w / of_int h :: rat) \<le> 180 / 100)
      \<and> (classify (number_of_int w) (number_of_int h) = ''portrait'' \<longleftrightarrow>
           50 / 100 \<le> (of_int w / of_int h :: rat) \<and> (of_int w / of_int h :: rat) \<le> 60 / 100)
      \<and> (classify (number_of_int w) (number_of_int h) = ''other'' \<longleftrightarrow>
           \<not> (170 / 100 \<le> (of_int w / of_int h :: rat) \<and> (of_int w / of_int h :: rat) \<le> 180 / 100)
           \<and> \<not> (50 / 100 \<le> (of_int w / of_int h :: rat) \<and> (of_int w / of_int h :: rat) \<le> 60 / 100))"
    if b: "0 < w" "w < 2 ^ 48" "0 < h" "h < 2 ^ 48"
  proof -
    have hr: "(0::rat) < of_int h" using b(3) by simp
    have 1: "(170 / 100 \<le> (of_int w / of_int h :: rat)) = (17 * h \<le> 10 * w)"
      using frac_ge_iff [of h 10 17 w] b(3) by (simp add: mult.commute)
    have 2: "((of_int w / of_int h :: rat) \<le> 180 / 100) = (10 * w \<le> 18 * h)"
      using frac_le_iff [of h 10 w 18] b(3) by (simp add: mult.commute)
    have 3: "(50 / 100 \<le> (of_int w / of_int h :: rat)) = (h \<le> 2 * w)"
      using frac_ge_iff [of h 2 1 w] b(3) by (simp add: mult.commute)
    have 4: "((of_int w / of_int h :: rat) \<le> 60 / 100) = (5 * w \<le> 3 * h)"
      using frac_le_iff [of h 5 w 3] b(3) by (simp add: mult.commute)
    show ?thesis
      unfolding 1 2 3 4 classify_exact [OF b] using b by auto
  qed
  from float exact show ?thesis by blast
qed

theorem classifier_intervals_witness:
  "classify (number_of_int 17) (number_of_int 10) = ''landscape''
   \<and> classify (number_of_int 18) (number_of_int 10) = ''landscape''
   \<and> classify (number_of_int 5) (number_of_int 10) = ''portrait''
   \<and> classify (number_of_int 6) (number_of_int 10) = ''portrait''
   \<and> classify (number_of_int 1920) (number_of_int 1080) = ''landscape''
   \<and> classify (number_of_int 1080) (number_of_int 1920) = ''portrait''
   \<and> classify (number_of_int 4) (number_of_int 3) = ''other''"
  using classifier_intervals [of _ _ 17 10] classifier_intervals [of _ _ 18 10]
    classifier_intervals [of _ _ 5 10] classifier_intervals [of _ _ 6 10]
    classifier_intervals [of _ _ 1920 1080] classifier_intervals [of _ _ 1080 1920]
    classifier_intervals [of _ _ 4 3]
  by simp

text \<open>
  Beyond that range rounding shows: a fraction a little below \<open>17 / 10\<close> whose quotient
  rounds to the Number \<^verbatim>\<open>1.70\<close>.
\<close>

lemma rounding_beyond_the_bound:
  "(of_int 1700000000000005 / of_int 1000000000000003 :: rat) < 170 / 100
   \<and> classify (number_of_int 1700000000000005) (number_of_int 1000000000000003) = ''landscape''"
proof -
  have "round_double False (1700000000000005 / 1000000000000003)
      = Fin False (of_int 7656119366529843 * 2 powi (0 - 52))"
    by (rule round_double_eval) (simp_all add: power_int_minus)
  then have "js_div (number_of_int 1700000000000005) (number_of_int 1000000000000003)
      = Fin False (7656119366529843 / 2 ^ 52)"
    by (simp add: number_of_int_def power_int_minus)
  then show ?thesis
    unfolding classify_def Let_def literal_170 literal_180 js_ge_def by simp
qed

section \<open>The validations\<close>

lemma MAX_UPLOAD_LIMIT_eq: "MAX_UPLOAD_LIMIT = 1073741824"
  by (simp add: MAX_UPLOAD_LIMIT_def)

lemma handler_validated:
  "validate cfg e req st = Inr (vid, vd, file) \<Longrightarrow>
   handlerUploadVideo cfg e req st = process_upload cfg e vid vd file st"
  by (simp add: handlerUploadVideo_def)

lemma handler_rejected:
  "validate cfg e req st = Inl err \<Longrightarrow> handlerUploadVideo cfg e req st = (Inl err, st)"
  by (simp add: handlerUploadVideo_def)


lemma validate_after_auth:
  assumes "authenticated cfg e req vid uid"
  shows "validate cfg e req st =
     (case getVideo (db st) vid of
        None \<Rightarrow> Inl (NotFoundError ''video not found'')
      | Some vd \<Rightarrow>
          if userID vd \<noteq> uid then Inl (UserForbiddenError ''user not authorized'')
          else
            (case formData req ''video'' of
               None \<Rightarrow> Inl (BadRequestError ''data is not a file'')
             | Some (Text t) \<Rightarrow> Inl (BadRequestError ''data is not a file'')
             | Some (FileValue file) \<Rightarrow>
                 if 1073741824 < int (file_size file)
                 then Inl (BadRequestError ''file exceeds upload limit (1GB)'')
                 else if file_type file \<noteq> ''video/mp4''
                 then Inl (BadRequestError ''wrong media type'')
                 else Inr (vid, vd, file)))"
  using assms
  by (auto simp: authenticated_def validate_def MAX_UPLOAD_LIMIT_eq
      split: sum.splits option.splits form_value.splits)

text \<open>
  Claim C10. An upload whose declared size is exactly \<open>2 ^ 30\<close> bytes passes the size check:
  for a request that reaches the check (authenticated owner of the record, a file in the
  form), the size error is returned exactly when the size is strictly above \<open>2 ^ 30\<close>, and a
  file of exactly \<open>2 ^ 30\<close> bytes of the accepted type goes on to be processed.
\<close>

theorem size_limit_inclusive:
  assumes "authenticated cfg e req vid (userID vd)"
    and "getVideo (db st) vid = Some vd"
    and "formData req ''video'' = Some (FileValue file)"
  shows "(validate cfg e req st = Inl (BadRequestError ''file exceeds upload limit (1GB)'')
            \<longleftrightarrow> 2 ^ 30 < file_size file)
       \<and> (file_size file = 2 ^ 30 \<and> file_type file = ''video/mp4'' \<longrightarrow>
            handlerUploadVideo cfg e req st = process_upload cfg e vid vd file st)"
proof -
  have v: "validate cfg e req st =
      (if 1073741824 < int (file_size file)
       then Inl (BadRequestError ''file exceeds upload limit (1GB)'')
       else if file_type file \<noteq> ''video/mp4''
       then Inl (BadRequestError ''wrong media type'')
       else Inr (vid, vd, file))"
    using assms(2,3) by (simp add: validate_after_auth [OF assms(1)])
  have "(validate cfg e req st = Inl (BadRequestError ''file exceeds upload limit (1GB)''))
          = (2 ^ 30 < file_size file)"
    by (auto simp: v)
  moreover have "file_size file = 2 ^ 30 \<and> file_type file = ''video/mp4'' \<longrightarrow>
      handlerUploadVideo cfg e req st = process_upload cfg e vid vd file st"
    by (auto simp: v handlerUploadVideo_def)
  ultimately show ?thesis by blast
qed

theorem size_limit_inclusive_witness:
  "validate cfg0 (env0 0 0 None) (upload0 ''v1'' ''token-u1'' (2 ^ 30) ''raw'') state0
     \<noteq> Inl (BadRequestError ''file exceeds upload limit (1GB)'')
   \<and> handlerUploadVideo cfg0 (env0 0 0 None) (upload0 ''v1'' ''token-u1'' (2 ^ 30) ''raw'') state0
     = process_upload cfg0 (env0 0 0 None) ''v1'' video0
         \<lparr> file_size = 2 ^ 30, file_type = ''video/mp4'', file_bytes = ''raw'' \<rparr> state0"
  using size_limit_inclusive [of cfg0 "env0 0 0 None" "upload0 ''v1'' ''token-u1'' (2 ^ 30) ''raw''"
      "''v1''" video0 state0 "\<lparr> file_size = 2 ^ 30, file_type = ''video/mp4'', file_bytes = ''raw'' \<rparr>"]
  by (simp add: authenticated_def env0_def upload0_def cfg0_def video0_def state0_def getVideo_def)

text \<open>
  Claim C8, as the code has it. The specification lists the size check first, then the media
  type, then the record. The handler resolves the record first: for an authenticated
  request, a missing record gives not-found and a foreign record gives forbidden whatever
  the form holds; only then the size is checked, and the media type after the size. Every
  one of these failures returns the state it was given, so nothing has been staged.
\<close>

theorem validation_order:
  assumes "authenticated cfg e req vid uid"
  shows "(getVideo (db st) vid = None \<longrightarrow>
            handlerUploadVideo cfg e req st = (Inl (NotFoundError ''video not found''), st))
       \<and> (getVideo (db st) vid = Some vd \<and> userID vd \<noteq> uid \<longrightarrow>
            handlerUploadVideo cfg e req st = (Inl (UserForbiddenError ''user not authorized''), st))
       \<and> (getVideo (db st) vid = Some vd \<and> userID vd = uid
            \<and> formData req ''video'' = Some (FileValue file) \<and> 2 ^ 30 < file_size file \<longrightarrow>
            handlerUploadVideo cfg e req st
              = (Inl (BadRequestError ''file exceeds upload limit (1GB)''), st))
       \<and> (getVideo (db st) vid = Some vd \<and> userID vd = uid
            \<and> formData req ''video'' = Some (FileValue file) \<and> file_size file \<le> 2 ^ 30
            \<and> file_type file \<noteq> ''video/mp4'' \<longrightarrow>
            handlerUploadVideo cfg e req st = (Inl (BadRequestError ''wrong media type''), st))"
  by (auto simp: handlerUploadVideo_def validate_after_auth [OF assms])

theorem validation_order_witness:
  "handlerUploadVideo cfg0 (env0 0 0 None) (upload0 ''v9'' ''token-u1'' (2 ^ 30 + 1) ''raw'') state0
     = (Inl (NotFoundError ''video not found''), state0)
   \<and> handlerUploadVideo cfg0 (env0 0 0 None) (upload0 ''v1'' ''token-u2'' (2 ^ 30 + 1) ''raw'') state0
     = (Inl (UserForbiddenError ''user not authorized''), state0)
   \<and> handlerUploadVideo cfg0 (env0 0 0 None) (upload0 ''v1'' ''token-u1'' (2 ^ 30 + 1) ''raw'') state0
     = (Inl (BadRequestError ''file exceeds upload limit (1GB)''), state0)"
proof -
  have a9: "authenticated cfg0 (env0 0 0 None) (upload0 ''v9'' ''token-u1'' (2 ^ 30 + 1) ''raw'') ''v9'' ''u1''"
    and a2: "authenticated cfg0 (env0 0 0 None) (upload0 ''v1'' ''token-u2'' (2 ^ 30 + 1) ''raw'') ''v1'' ''u2''"
    and a1: "authenticated cfg0 (env0 0 0 None) (upload0 ''v1'' ''token-u1'' (2 ^ 30 + 1) ''raw'') ''v1'' ''u1''"
    by (simp_all add: authenticated_def env0_def upload0_def cfg0_def)
  have none: "getVideo (db state0) ''v9'' = None" and some: "getVideo (db state0) ''v1'' = Some video0"
    by (simp_all add: getVideo_def state0_def)
  show ?thesis
    using validation_order [OF a9, of state0] validation_order [OF a2, of state0 video0]
      validation_order [OF a1, of state0 video0
        "\<lparr> file_size = 2 ^ 30 + 1, file_type = ''video/mp4'', file_bytes = ''raw'' \<rparr>"]
      none some
    by (simp add: video0_def upload0_def)
qed

text \<open>
  The order of the specification fails on an oversized upload for a record that does not
  exist: the specified order answers with the size error, the handler with not-found.
\<close>

theorem validation_order_counterexample:
  "validate cfg0 (env0 0 0 None) (upload0 ''v9'' ''token-u1'' (2 ^ 30 + 1) ''raw'') state0
     = Inl (NotFoundError ''video not found'')
   \<and> validate_as_specified (db state0) ''v9'' ''u1''
        \<lparr> file_size = 2 ^ 30 + 1, file_type = ''video/mp4'', file_bytes = ''raw'' \<rparr>
     = Inl (BadRequestError ''file exceeds upload limit (1GB)'')"
  by (simp add: validate_def validate_as_specified_def env0_def upload0_def cfg0_def state0_def
      getVideo_def)

text \<open>
  Claim C6, as the code has it. An upload whose declared size exceeds \<open>2 ^ 30\<close> bytes always
  fails, and the state is returned untouched, so no temporary file has been created. The
  error is that of the first check that fails, in the order of the handler: the bad-request
  error of a missing identifier; the error of \<^verbatim>\<open>getBearerToken\<close>; the error of
  \<^verbatim>\<open>validateJWT\<close>; not-found for a record that does not exist; forbidden for a record of
  another principal; and, when all of these pass, the bad-request error of the size check.
\<close>

theorem oversize_rejected_before_staging:
  assumes "formData req ''video'' = Some (FileValue upload)" and "2 ^ 30 < file_size upload"
  shows "isl (fst (handlerUploadVideo cfg e req st))
       \<and> snd (handlerUploadVideo cfg e req st) = st
       \<and> (videoId req = None \<or> videoId req = Some [] \<longrightarrow>
            handlerUploadVideo cfg e req st = (Inl (BadRequestError ''invalid video id''), st))
       \<and> (videoId req = Some vid \<and> vid \<noteq> [] \<and> getBearerToken e (headers req) = Inl err \<longrightarrow>
            handlerUploadVideo cfg e req st = (Inl err, st))
       \<and> (videoId req = Some vid \<and> vid \<noteq> [] \<and> getBearerToken e (headers req) = Inr token
            \<and> validateJWT e token (jwtSecret cfg) = Inl err \<longrightarrow>
            handlerUploadVideo cfg e req st = (Inl err, st))
       \<and> (authenticated cfg e req vid uid \<and> getVideo (db st) vid = None \<longrightarrow>
            handlerUploadVideo cfg e req st = (Inl (NotFoundError ''video not found''), st))
       \<and> (authenticated cfg e req vid uid \<and> getVideo (db st) vid = Some vd \<and> userID vd \<noteq> uid \<longrightarrow>
            handlerUploadVideo cfg e req st = (Inl (UserForbiddenError ''user not authorized''), st))
       \<and> (authenticated cfg e req vid uid \<and> getVideo (db st) vid = Some vd \<and> userID vd = uid \<longrightarrow>
            handlerUploadVideo cfg e req st
              = (Inl (BadRequestError ''file exceeds upload limit (1GB)''), st))"
proof -
  have "\<exists>err. validate cfg e req st = Inl err"
    using assms
    by (auto simp: validate_def MAX_UPLOAD_LIMIT_eq split: sum.splits option.splits form_value.splits)
  then have fails: "isl (fst (handlerUploadVideo cfg e req st)) \<and> snd (handlerUploadVideo cfg e req st) = st"
    by (auto simp: handlerUploadVideo_def)
  have ident: "videoId req = None \<or> videoId req = Some [] \<longrightarrow>
      handlerUploadVideo cfg e req st = (Inl (BadRequestError ''invalid video id''), st)"
    by (auto simp: handlerUploadVideo_def validate_def)
  have token: "videoId req = Some vid \<and> vid \<noteq> [] \<and> getBearerToken e (headers req) = Inl err \<longrightarrow>
      handlerUploadVideo cfg e req st = (Inl err, st)"
    by (auto simp: handlerUploadVideo_def validate_def)
  have jwt: "videoId req = Some vid \<and> vid \<noteq> [] \<and> getBearerToken e (headers req) = Inr token
      \<and> validateJWT e token (jwtSecret cfg) = Inl err \<longrightarrow>
      handlerUploadVideo cfg e req st = (Inl err, st)"
    by (auto simp: handlerUploadVideo_def validate_def)
  have resolved: "(authenticated cfg e req vid uid \<and> getVideo (db st) vid = None \<longrightarrow>
        handlerUploadVideo cfg e req st = (Inl (NotFoundError ''video not found''), st))
      \<and> (authenticated cfg e req vid uid \<and> getVideo (db st) vid = Some vd \<and> userID vd \<noteq> uid \<longrightarrow>
        handlerUploadVideo cfg e req st = (Inl (UserForbiddenError ''user not authorized''), st))
      \<and> (authenticated cfg e req vid uid \<and> getVideo (db st) vid = Some vd \<and> userID vd = uid \<longrightarrow>
        handlerUploadVideo cfg e req st
          = (Inl (BadRequestError ''file exceeds upload limit (1GB)''), st))"
    using assms by (auto simp: handlerUploadVideo_def validate_after_auth)
  from fails ident token jwt resolved show ?thesis by blast
qed

theorem oversize_rejected_before_staging_witness:
  "handlerUploadVideo cfg0 (env0 0 0 None) (upload0 [] ''token-u1'' (2 ^ 30 + 1) ''raw'') state0
     = (Inl (BadRequestError ''invalid video id''), state0)
   \<and> handlerUploadVideo cfg0 (env0 0 0 None) (upload0 ''v1'' [] (2 ^ 30 + 1) ''raw'') state0
     = (Inl (AuthError ''no token''), state0)
   \<and> handlerUploadVideo cfg0 (env0 0 0 None) (upload0 ''v1'' ''token-u3'' (2 ^ 30 + 1) ''raw'') state0
     = (Inl (AuthError ''invalid token''), state0)
   \<and> handlerUploadVideo cfg0 (env0 0 0 None) (upload0 ''v9'' ''token-u1'' (2 ^ 30 + 1) ''raw'') state0
     = (Inl (NotFoundError ''video not found''), state0)
   \<and> handlerUploadVideo cfg0 (env0 0 0 None) (upload0 ''v1'' ''token-u2'' (2 ^ 30 + 1) ''raw'') state0
     = (Inl (UserForbiddenError ''user not authorized''), state0)
   \<and> handlerUploadVideo cfg0 (env0 0 0 None) (upload0 ''v1'' ''token-u1'' (2 ^ 30 + 1) ''raw'') state0
     = (Inl (BadRequestError ''file exceeds upload limit (1GB)''), state0)"
proof -
  let ?f = "\<lparr> file_size = 2 ^ 30 + 1, file_type = ''video/mp4'', file_bytes = ''raw'' \<rparr>"
  have form: "\<And>v t. formData (upload0 v t (2 ^ 30 + 1) ''raw'') ''video'' = Some (FileValue ?f)"
    and big: "2 ^ 30 < file_size ?f"
    by (simp_all add: upload0_def)
  have a9: "authenticated cfg0 (env0 0 0 None) (upload0 ''v9'' ''token-u1'' (2 ^ 30 + 1) ''raw'') ''v9'' ''u1''"
    and a2: "authenticated cfg0 (env0 0 0 None) (upload0 ''v1'' ''token-u2'' (2 ^ 30 + 1) ''raw'') ''v1'' ''u2''"
    and a1: "authenticated cfg0 (env0 0 0 None) (upload0 ''v1'' ''token-u1'' (2 ^ 30 + 1) ''raw'') ''v1'' ''u1''"
    by (simp_all add: authenticated_def env0_def upload0_def cfg0_def)
  have none: "getVideo (db state0) ''v9'' = None" and some: "getVideo (db state0) ''v1'' = Some video0"
    by (simp_all add: getVideo_def state0_def)
  have owner: "userID video0 = ''u1''" by (simp add: video0_def)
  have 1: "handlerUploadVideo cfg0 (env0 0 0 None) (upload0 [] ''token-u1'' (2 ^ 30 + 1) ''raw'') state0
      = (Inl (BadRequestError ''invalid video id''), state0)"
    using oversize_rejected_before_staging [where req = "upload0 [] ''token-u1'' (2 ^ 30 + 1) ''raw''"
        and upload = ?f and cfg = cfg0 and e = "env0 0 0 None" and st = state0]
    by (simp add: upload0_def)
  have 2: "handlerUploadVideo cfg0 (env0 0 0 None) (upload0 ''v1'' [] (2 ^ 30 + 1) ''raw'') state0
      = (Inl (AuthError ''no token''), state0)"
    using oversize_rejected_before_staging [where req = "upload0 ''v1'' [] (2 ^ 30 + 1) ''raw''"
        and upload = ?f and cfg = cfg0 and e = "env0 0 0 None" and st = state0
        and vid = "''v1''" and err = "AuthError ''no token''"]
    by (simp add: upload0_def env0_def)
  have 3: "handlerUploadVideo cfg0 (env0 0 0 None) (upload0 ''v1'' ''token-u3'' (2 ^ 30 + 1) ''raw'') state0
      = (Inl (AuthError ''invalid token''), state0)"
    using oversize_rejected_before_staging [where req = "upload0 ''v1'' ''token-u3'' (2 ^ 30 + 1) ''raw''"
        and upload = ?f and cfg = cfg0 and e = "env0 0 0 None" and st = state0
        and vid = "''v1''" and err = "AuthError ''invalid token''" and token = "''token-u3''"]
    by (simp add: upload0_def env0_def)
  have 4: "handlerUploadVideo cfg0 (env0 0 0 None) (upload0 ''v9'' ''token-u1'' (2 ^ 30 + 1) ''raw'') state0
      = (Inl (NotFoundError ''video not found''), state0)"
    using oversize_rejected_before_staging [where req = "upload0 ''v9'' ''token-u1'' (2 ^ 30 + 1) ''raw''"
        and upload = ?f and cfg = cfg0 and e = "env0 0 0 None" and st = state0
        and vid = "''v9''" and uid = "''u1''"] form big a9 none
    by simp
  have 5: "handlerUploadVideo cfg0 (env0 0 0 None) (upload0 ''v1'' ''token-u2'' (2 ^ 30 + 1) ''raw'') state0
      = (Inl (UserForbiddenError ''user not authorized''), state0)"
    using oversize_rejected_before_staging [where req = "upload0 ''v1'' ''token-u2'' (2 ^ 30 + 1) ''raw''"
        and upload = ?f and cfg = cfg0 and e = "env0 0 0 None" and st = state0
        and vid = "''v1''" and uid = "''u2''" and vd = video0] form big a2 some owner
    by simp
  have 6: "handlerUploadVideo cfg0 (env0 0 0 None) (upload0 ''v1'' ''token-u1'' (2 ^ 30 + 1) ''raw'') state0
      = (Inl (BadRequestError ''file exceeds upload limit (1GB)''), state0)"
    using oversize_rejected_before_staging [where req = "upload0 ''v1'' ''token-u1'' (2 ^ 30 + 1) ''raw''"
        and upload = ?f and cfg = cfg0 and e = "env0 0 0 None" and st = state0
        and vid = "''v1''" and uid = "''u1''" and vd = video0] form big a1 some owner
    by simp
  from 1 2 3 4 5 6 show ?thesis by blast
qed

text \<open>
  An oversized upload by a principal who does not own the record is refused as forbidden,
  not as a bad request.
\<close>

theorem oversize_counterexample:
  "2 ^ 30 < file_size \<lparr> file_size = 2 ^ 30 + 1, file_type = ''video/mp4'', file_bytes = ''raw'' \<rparr>
   \<and> formData (upload0 ''v1'' ''token-u2'' (2 ^ 30 + 1) ''raw'') ''video''
       = Some (FileValue \<lparr> file_size = 2 ^ 30 + 1, file_type = ''video/mp4'', file_bytes = ''raw'' \<rparr>)
   \<and> fst (handlerUploadVideo cfg0 (env0 0 0 None) (upload0 ''v1'' ''token-u2'' (2 ^ 30 + 1) ''raw'') state0)
       = Inl (UserForbiddenError ''user not authorized'')
   \<and> \<not> is_bad_request
         (fst (handlerUploadVideo cfg0 (env0 0 0 None) (upload0 ''v1'' ''token-u2'' (2 ^ 30 + 1) ''raw'') state0))"
  by (simp add: handlerUploadVideo_def validate_def env0_def upload0_def cfg0_def state0_def
      video0_def getVideo_def is_bad_request_def)

section \<open>The pipeline after the validations\<close>

subsection \<open>Temporary paths\<close>

lemma split_on_absent: "c \<notin> set s \<Longrightarrow> split_on c s = [s]"
  by (induction s) auto

lemma mp4_segment:
  "v @ ''.mp4'' \<noteq> []" "v @ ''.mp4'' \<noteq> ''.''" "v @ ''.mp4'' \<noteq> ''..''"
proof -
  have "length (v @ ''.mp4'') \<ge> 4" by simp
  then show "v @ ''.mp4'' \<noteq> []" "v @ ''.mp4'' \<noteq> ''.''" "v @ ''.mp4'' \<noteq> ''..''"
    by (metis length_0_conv not_numeral_le_zero, auto dest: arg_cong [where f = length])
qed

lemma tempFilePath_plain:
  assumes "CHR ''/'' \<notin> set vid"
  shows "tempFilePath vid = ''/tmp/'' @ vid @ ''.mp4''"
proof -
  have seg: "CHR ''/'' \<notin> set (vid @ ''.mp4'')" using assms by simp
  have "split_on CHR ''/'' (''/tmp/'' @ vid @ ''.mp4'') = [[], ''tmp'', vid @ ''.mp4'']"
    using split_on_absent [OF seg] by simp
  then show ?thesis
    using mp4_segment [of vid]
    by (simp add: tempFilePath_def path_join_def normalize_def)
qed

lemma tempFilePath_v1: "tempFilePath ''v1'' = ''/tmp/v1.mp4''"
  by (simp add: tempFilePath_plain)

lemma temp_not_out [simp]: "p \<noteq> outFilePath p"
  by (simp add: outFilePath_def)

text \<open>
  Claim C3, as the code has it. The Staging File is \<^verbatim>\<open>/tmp/<videoId>.mp4\<close> and the Processed
  File is that path with \<^verbatim>\<open>.processed\<close> appended: both are determined by the record
  identifier alone. For identifiers without a slash, two runs have the same Staging File path
  exactly when they are for the same record, and likewise for the Processed File path.
\<close>

theorem temp_paths_by_identifier:
  assumes "CHR ''/'' \<notin> set v1" and "CHR ''/'' \<notin> set v2"
  shows "(tempFilePath v1 = tempFilePath v2 \<longleftrightarrow> v1 = v2)
       \<and> (outFilePath (tempFilePath v1) = outFilePath (tempFilePath v2) \<longleftrightarrow> v1 = v2)"
  using assms by (simp add: tempFilePath_plain outFilePath_def)

theorem temp_paths_by_identifier_witness:
  "tempFilePath ''v1'' \<noteq> tempFilePath ''v2''
   \<and> outFilePath (tempFilePath ''v1'') \<noteq> outFilePath (tempFilePath ''v2'')"
  using temp_paths_by_identifier [of "''v1''" "''v2''"] by simp

subsection \<open>The steps\<close>

lemma probe_failed:
  "exit_code (exec e (ffprobe_args p)) \<noteq> Some 0 \<Longrightarrow> getVideoAspectRatio e p = Inr None"
  by (simp add: getVideoAspectRatio_def Bun_spawn_def Let_def)

lemma probe_succeeded:
  "exit_code (exec e (ffprobe_args p)) = Some 0 \<Longrightarrow>
   getVideoAspectRatio e p =
     (case JSON_parse e (out_text (exec e (ffprobe_args p))) of
        Inl err \<Rightarrow> Inl err
      | Inr (width, height) \<Rightarrow> Inr (Some (classify width height)))"
  by (simp add: getVideoAspectRatio_def Bun_spawn_def Let_def)


lemma remux_frame:
  assumes "processVideoForFastStart e p st = (r, st')"
  shows "db st' = db st" and "s3 st' = s3 st"
    and "q \<noteq> outFilePath p \<Longrightarrow> fs st' q = fs st q"
    and "r = Inr x \<Longrightarrow> x = outFilePath p"
  using assms
  by (auto simp: processVideoForFastStart_def Bun_spawn_def Let_def split: option.splits if_splits)

lemma remux_failed:
  "exit_code (exec e (ffmpeg_args p (outFilePath p))) \<noteq> Some 0 \<Longrightarrow>
   fst (processVideoForFastStart e p st) = Inl (Error ''[object ReadableStream]'')"
  by (simp add: processVideoForFastStart_def Bun_spawn_def Let_def)

lemma stage_simps [simp]:
  "db (stage vid file st) = db st" "s3 (stage vid file st) = s3 st"
  "fs (stage vid file st) (tempFilePath vid) = Some (file_bytes file)"
  by (simp_all add: stage_def)







subsection \<open>Runs of the sample deployment\<close>


lemma file0_simps [simp]:
  "file_size (file0 n b) = n" "file_type (file0 n b) = ''video/mp4''" "file_bytes (file0 n b) = b"
  by (simp_all add: file0_def)

lemma hex32: "toHex (randomBytes (env0 p r x) 32) =
  ''abababababababababababababababababababababababababababababababab''"
proof -
  have "map (random (env0 p r x)) [0..<32] = replicate 32 171"
    by (simp add: env0_def map_replicate_const)
  then have "toHex (randomBytes (env0 p r x) 32) = concat (replicate 32 ''ab'')"
    by (simp add: toHex_def randomBytes_def hex_digit_def)
  also have "\<dots> = ''abababababababababababababababababababababababababababababababab''"
    by code_simp
  finally show ?thesis .
qed

lemma validate0:
  "n \<le> 2 ^ 30 \<Longrightarrow> validate cfg0 (env0 p r x) (upload0 ''v1'' ''token-u1'' n b) state0
     = Inr (''v1'', video0, \<lparr> file_size = n, file_type = ''video/mp4'', file_bytes = b \<rparr>)"
  by (simp add: validate_def env0_def upload0_def cfg0_def state0_def video0_def getVideo_def
      MAX_UPLOAD_LIMIT_eq)

lemma validated0:
  "n \<le> 2 ^ 30 \<Longrightarrow> validate cfg0 (env0 p r x) (upload0 ''v1'' ''token-u1'' n b) state0
     = Inr (''v1'', video0, file0 n b)"
  by (simp add: validate0 file0_def)

lemma probe0_ok: "getVideoAspectRatio (env0 0 r x) p = Inr (Some ''landscape'')"
proof -
  have "exit_code (exec (env0 0 r x) (ffprobe_args p)) = Some 0"
    by (simp add: env0_def tool0_def ffprobe_args_def)
  then have "getVideoAspectRatio (env0 0 r x) p
      = Inr (Some (classify (number_of_int 1920) (number_of_int 1080)))"
    by (simp add: probe_succeeded) (simp add: env0_def tool0_def ffprobe_args_def)
  then show ?thesis by (simp add: classify_exact)
qed

lemma probe0_fail: "getVideoAspectRatio (env0 1 r x) p = Inr None"
  by (rule probe_failed) (simp add: env0_def tool0_def ffprobe_args_def)

lemma remux0_ok:
  "processVideoForFastStart (env0 p 0 x) q st
     = (Inr (outFilePath q), st\<lparr> fs := (fs st)(outFilePath q \<mapsto> ''remuxed'') \<rparr>)"
  by (simp add: processVideoForFastStart_def Bun_spawn_def env0_def tool0_def ffmpeg_args_def)

lemma remux0_fail:
  "processVideoForFastStart (env0 p 1 x) q st = (Inl (Error ''[object ReadableStream]''), st)"
  by (simp add: processVideoForFastStart_def Bun_spawn_def env0_def tool0_def ffmpeg_args_def)

lemma s3_write0: "s3_write (env0 p r x) b k = x"
  by (simp add: env0_def)

lemma key0: "storage_key (env0 p r x) (Some ''landscape'') =
  ''landscape/abababababababababababababababababababababababababababababababab.mp4''"
  by (simp add: storage_key_def template_ratio_def hex32)

lemma run0_probe_failure:
  "process_upload cfg0 (env0 1 0 None) ''v1'' video0
          \<lparr> file_size = 3, file_type = ''video/mp4'', file_bytes = ''raw'' \<rparr> state0
  = (Inr \<lparr> status = 200,
              body = video0\<lparr> videoURL := Some
                ''https://tubely.s3.eu-central-1.amazonaws.com/undefined/abababababababababababababababababababababababababababababababab.mp4'' \<rparr> \<rparr>,
        \<lparr> db = [''v1'' \<mapsto> video0\<lparr> videoURL := Some
                ''https://tubely.s3.eu-central-1.amazonaws.com/undefined/abababababababababababababababababababababababababababababababab.mp4'' \<rparr>],
          fs = [''/tmp/v1.mp4.processed'' \<mapsto> ''remuxed''],
          s3 = [(''tubely'', ''undefined/abababababababababababababababababababababababababababababababab.mp4'')
                  \<mapsto> (''remuxed'', ''video/mp4'')] \<rparr>)"
  apply (simp add: process_upload_def probe0_fail remux0_ok s3_write0 storage_key_def hex32
      template_ratio_def tempFilePath_v1 outFilePath_def stage_def locator_def respondWithJSON_def
      updateVideo_def)
  apply (simp add: cfg0_def state0_def video0_def Let_def)
  done

lemma run0_rejected:
  "process_upload cfg0 (env0 0 0 (Some err)) ''v1'' video0 (file0 n b) state0
     = (Inl err, state0\<lparr> fs := [''/tmp/v1.mp4'' \<mapsto> b, ''/tmp/v1.mp4.processed'' \<mapsto> ''remuxed''] \<rparr>)"
  by (simp add: process_upload_def probe0_ok remux0_ok s3_write0 tempFilePath_v1 outFilePath_def
      stage_def file0_def state0_def)

lemma run0_remux_failed:
  "process_upload cfg0 (env0 0 1 x) ''v1'' video0 (file0 n b) state0
     = (Inl (Error ''[object ReadableStream]''), state0\<lparr> fs := [''/tmp/v1.mp4'' \<mapsto> b] \<rparr>)"
  by (simp add: process_upload_def probe0_ok remux0_fail tempFilePath_v1 stage_def file0_def
      state0_def)

lemma run0_success:
  "process_upload cfg0 (env0 0 0 None) ''v1'' video0 (file0 n b) state0
     = (Inr \<lparr> status = 200,
              body = video0\<lparr> videoURL := Some
                ''https://tubely.s3.eu-central-1.amazonaws.com/landscape/abababababababababababababababababababababababababababababababab.mp4'' \<rparr> \<rparr>,
        \<lparr> db = [''v1'' \<mapsto> video0\<lparr> videoURL := Some
                ''https://tubely.s3.eu-central-1.amazonaws.com/landscape/abababababababababababababababababababababababababababababababab.mp4'' \<rparr>],
          fs = [''/tmp/v1.mp4.processed'' \<mapsto> ''remuxed''],
          s3 = [(''tubely'', ''landscape/abababababababababababababababababababababababababababababababab.mp4'')
                  \<mapsto> (''remuxed'', ''video/mp4'')] \<rparr>)"
  apply (simp add: process_upload_def probe0_ok remux0_ok s3_write0 key0
      tempFilePath_v1 outFilePath_def stage_def locator_def respondWithJSON_def
      updateVideo_def file0_def)
  apply (simp add: cfg0_def state0_def video0_def Let_def)
  done

text \<open>
  Two uploads for the same record stage at the same path and leave their Processed File at
  the same path.
\<close>

theorem temp_paths_counterexample:
  "fs (snd (handlerUploadVideo cfg0 (env0 0 0 (Some (S3Error ''SlowDown'')))
              (upload0 ''v1'' ''token-u1'' 3 ''first'') state0)) ''/tmp/v1.mp4'' = Some ''first''
   \<and> fs (snd (handlerUploadVideo cfg0 (env0 0 0 (Some (S3Error ''SlowDown'')))
              (upload0 ''v1'' ''token-u1'' 6 ''second'') state0)) ''/tmp/v1.mp4'' = Some ''second''
   \<and> fs (snd (handlerUploadVideo cfg0 (env0 0 0 (Some (S3Error ''SlowDown'')))
              (upload0 ''v1'' ''token-u1'' 3 ''first'') state0)) ''/tmp/v1.mp4.processed'' = Some ''remuxed''
   \<and> fs (snd (handlerUploadVideo cfg0 (env0 0 0 (Some (S3Error ''SlowDown'')))
              (upload0 ''v1'' ''token-u1'' 6 ''second'') state0)) ''/tmp/v1.mp4.processed'' = Some ''remuxed''
   \<and> tempFilePath ''v1'' = ''/tmp/v1.mp4''
   \<and> outFilePath (tempFilePath ''v1'') = ''/tmp/v1.mp4.processed''"
  by (simp add: handler_validated [OF validated0] run0_rejected tempFilePath_v1 outFilePath_def)

subsection \<open>Cleanup\<close>

text \<open>
  What a validated run leaves in the temporary directory. The only removal in the handler is
  that of the Staging File, as the last step before the response.
\<close>

lemma processed_left_on_success:
  assumes "validate cfg e req st = Inr (vid, vd, file)"
    and "handlerUploadVideo cfg e req st = (Inr resp, st')"
  shows "fs st' (tempFilePath vid) = None \<and> fs st' (outFilePath (tempFilePath vid)) \<noteq> None"
proof -
  obtain rr st2 where remux:
    "processVideoForFastStart e (tempFilePath vid) (stage vid file st) = (rr, st2)"
    by (cases "processVideoForFastStart e (tempFilePath vid) (stage vid file st)")
  have out: "\<And>x. rr = Inr x \<Longrightarrow> x = outFilePath (tempFilePath vid)"
    using remux_frame(4) [OF remux] by simp
  have differ: "outFilePath (tempFilePath vid) \<noteq> tempFilePath vid"
    by (simp add: outFilePath_def)
  have "process_upload cfg e vid vd file st = (Inr resp, st')"
    using assms by (simp add: handler_validated)
  then show ?thesis
    using remux out differ
    by (auto simp: process_upload_def Let_def split: sum.splits option.splits)
qed

lemma staging_left_on_error:
  assumes "validate cfg e req st = Inr (vid, vd, file)"
    and "handlerUploadVideo cfg e req st = (Inl err, st')"
  shows "fs st' (tempFilePath vid) = Some (file_bytes file)"
proof -
  obtain rr st2 where remux:
    "processVideoForFastStart e (tempFilePath vid) (stage vid file st) = (rr, st2)"
    by (cases "processVideoForFastStart e (tempFilePath vid) (stage vid file st)")
  have kept: "fs st2 (tempFilePath vid) = Some (file_bytes file)"
    using remux_frame(3) [OF remux, of "tempFilePath vid"] by simp
  have "process_upload cfg e vid vd file st = (Inl err, st')"
    using assms by (simp add: handler_validated)
  then show ?thesis
    using remux kept
    by (auto simp: process_upload_def Let_def split: sum.splits option.splits)
qed

text \<open>
  Claim C1. The specification has both temporary files removed before the outcome of a run
  is returned, on the success path and on every error path. The handler attempts it (its
  last step removes the Staging File) and misses: the Processed File is never removed, and
  a step that throws ends the run before the removal. In the sample deployment a run that
  succeeds leaves \<^verbatim>\<open>/tmp/v1.mp4.processed\<close>, a run whose upload the store rejects leaves both
  files, and a run whose remux fails leaves the Staging File.
\<close>

theorem cleanup_missed:
  "\<not> isl (fst (handlerUploadVideo cfg0 (env0 0 0 None) (upload0 ''v1'' ''token-u1'' 3 ''raw'') state0))
   \<and> fs (snd (handlerUploadVideo cfg0 (env0 0 0 None) (upload0 ''v1'' ''token-u1'' 3 ''raw'') state0))
        ''/tmp/v1.mp4.processed'' = Some ''remuxed''
   \<and> \<not> temp_files_removed ''v1''
         (snd (handlerUploadVideo cfg0 (env0 0 0 None) (upload0 ''v1'' ''token-u1'' 3 ''raw'') state0))
   \<and> handlerUploadVideo cfg0 (env0 0 0 (Some (S3Error ''AccessDenied'')))
        (upload0 ''v1'' ''token-u1'' 3 ''raw'') state0
       = (Inl (S3Error ''AccessDenied''),
          state0\<lparr> fs := [''/tmp/v1.mp4'' \<mapsto> ''raw'', ''/tmp/v1.mp4.processed'' \<mapsto> ''remuxed''] \<rparr>)
   \<and> \<not> temp_files_removed ''v1''
         (snd (handlerUploadVideo cfg0 (env0 0 0 (Some (S3Error ''AccessDenied'')))
                (upload0 ''v1'' ''token-u1'' 3 ''raw'') state0))
   \<and> handlerUploadVideo cfg0 (env0 0 1 None) (upload0 ''v1'' ''token-u1'' 3 ''raw'') state0
       = (Inl (Error ''[object ReadableStream]''), state0\<lparr> fs := [''/tmp/v1.mp4'' \<mapsto> ''raw''] \<rparr>)
   \<and> \<not> temp_files_removed ''v1''
         (snd (handlerUploadVideo cfg0 (env0 0 1 None) (upload0 ''v1'' ''token-u1'' 3 ''raw'') state0))"
  by (simp add: handler_validated [OF validated0] run0_success run0_rejected run0_remux_failed
      temp_files_removed_def tempFilePath_v1 outFilePath_def)

subsection \<open>Failure of the probe\<close>

text \<open>
  Claim C2. The specification has the run fail with a tool failure when the probe exits
  non-zero. In the source \<^verbatim>\<open>getVideoAspectRatio\<close> logs the exit code and returns nothing,
  where \<^verbatim>\<open>processVideoForFastStart\<close> throws; the handler goes on with the label
  \<^verbatim>\<open>undefined\<close>. In the sample deployment, with the probe exiting with code 1, the run
  answers 200 and writes a locator under \<^verbatim>\<open>undefined/\<close> into the record.
\<close>

theorem probe_failure_run:
  "handlerUploadVideo cfg0 (env0 1 0 None) (upload0 ''v1'' ''token-u1'' 3 ''raw'') state0
     = (Inr \<lparr> status = 200,
              body = video0\<lparr> videoURL := Some
                ''https://tubely.s3.eu-central-1.amazonaws.com/undefined/abababababababababababababababababababababababababababababababab.mp4'' \<rparr> \<rparr>,
        \<lparr> db = [''v1'' \<mapsto> video0\<lparr> videoURL := Some
                ''https://tubely.s3.eu-central-1.amazonaws.com/undefined/abababababababababababababababababababababababababababababababab.mp4'' \<rparr>],
          fs = [''/tmp/v1.mp4.processed'' \<mapsto> ''remuxed''],
          s3 = [(''tubely'', ''undefined/abababababababababababababababababababababababababababababababab.mp4'')
                  \<mapsto> (''remuxed'', ''video/mp4'')] \<rparr>)"
  using run0_probe_failure by (simp add: handler_validated [OF validate0])

subsection \<open>Failure of the remux\<close>

text \<open>
  Claim C9. When the remux exits non-zero the adapter throws, once and without a retry.
  The message of the error is the stream object in a template literal, not the text read
  from it (the probe reads its output with \<^verbatim>\<open>text()\<close>): in the sample deployment the tool
  writes \<^verbatim>\<open>moov atom not found\<close> and the error says \<^verbatim>\<open>[object ReadableStream]\<close>.
\<close>

theorem remux_failure_message:
  "exit_code (exec (env0 0 1 None) (ffmpeg_args ''/tmp/v1.mp4'' (outFilePath ''/tmp/v1.mp4''))) = Some 1
   \<and> err_text (exec (env0 0 1 None) (ffmpeg_args ''/tmp/v1.mp4'' (outFilePath ''/tmp/v1.mp4'')))
       = ''moov atom not found''
   \<and> processVideoForFastStart (env0 0 1 None) ''/tmp/v1.mp4'' state0
       = (Inl (Error ''[object ReadableStream]''), state0)"
  by (simp add: remux0_fail) (simp add: env0_def tool0_def ffmpeg_args_def)

subsection \<open>The record is written after the upload\<close>

text \<open>
  Claim C5. The locator of the record is written only after the remote upload has
  succeeded. For a validated run: an error of any kind leaves the table of records as it
  was; when the run reaches the upload and the store rejects the write, the run fails with
  the rejection of the store and the records and the bucket are unchanged; and when the
  table of records has changed, the store has accepted the write and holds the object.
\<close>

theorem locator_after_upload:
  assumes "validate cfg e req st = Inr (vid, vd, file)"
  shows "(isl (fst (handlerUploadVideo cfg e req st)) \<longrightarrow>
            db (snd (handlerUploadVideo cfg e req st)) = db st)
       \<and> (getVideoAspectRatio e (tempFilePath vid) = Inr ratio
            \<and> processVideoForFastStart e (tempFilePath vid) (stage vid file st) = (Inr p, st2)
            \<and> fs st2 p = Some content
            \<and> s3_write e (s3Bucket cfg) (storage_key e ratio) = Some err \<longrightarrow>
            handlerUploadVideo cfg e req st = (Inl err, st2) \<and> db st2 = db st \<and> s3 st2 = s3 st)
       \<and> (db (snd (handlerUploadVideo cfg e req st)) \<noteq> db st \<longrightarrow>
            (\<exists>ratio. getVideoAspectRatio e (tempFilePath vid) = Inr ratio
               \<and> s3_write e (s3Bucket cfg) (storage_key e ratio) = None
               \<and> s3 (snd (handlerUploadVideo cfg e req st)) (s3Bucket cfg, storage_key e ratio) \<noteq> None))"
proof -
  obtain rr stx where remux:
    "processVideoForFastStart e (tempFilePath vid) (stage vid file st) = (rr, stx)"
    by (cases "processVideoForFastStart e (tempFilePath vid) (stage vid file st)")
  have frame: "db stx = db st" "s3 stx = s3 st"
    using remux_frame(1,2) [OF remux] by simp_all
  have h: "handlerUploadVideo cfg e req st = process_upload cfg e vid vd file st"
    by (rule handler_validated [OF assms])
  have 1: "isl (fst (handlerUploadVideo cfg e req st)) \<longrightarrow>
      db (snd (handlerUploadVideo cfg e req st)) = db st"
    using remux frame
    by (auto simp: h process_upload_def Let_def split: sum.splits option.splits)
  have 2: "getVideoAspectRatio e (tempFilePath vid) = Inr ratio
      \<and> processVideoForFastStart e (tempFilePath vid) (stage vid file st) = (Inr p, st2)
      \<and> fs st2 p = Some content
      \<and> s3_write e (s3Bucket cfg) (storage_key e ratio) = Some err \<longrightarrow>
      handlerUploadVideo cfg e req st = (Inl err, st2) \<and> db st2 = db st \<and> s3 st2 = s3 st"
    using remux frame
    by (auto simp: h process_upload_def Let_def)
  have 3: "db (snd (handlerUploadVideo cfg e req st)) \<noteq> db st \<longrightarrow>
      (\<exists>ratio. getVideoAspectRatio e (tempFilePath vid) = Inr ratio
         \<and> s3_write e (s3Bucket cfg) (storage_key e ratio) = None
         \<and> s3 (snd (handlerUploadVideo cfg e req st)) (s3Bucket cfg, storage_key e ratio) \<noteq> None)"
    using remux frame
    by (auto simp: h process_upload_def Let_def split: sum.splits option.splits)
  from 1 2 3 show ?thesis by blast
qed

theorem locator_after_upload_witness:
  "handlerUploadVideo cfg0 (env0 0 0 (Some (S3Error ''AccessDenied'')))
      (upload0 ''v1'' ''token-u1'' 3 ''raw'') state0
     = (Inl (S3Error ''AccessDenied''),
        state0\<lparr> fs := [''/tmp/v1.mp4'' \<mapsto> ''raw'', ''/tmp/v1.mp4.processed'' \<mapsto> ''remuxed''] \<rparr>)
   \<and> db (state0\<lparr> fs := [''/tmp/v1.mp4'' \<mapsto> ''raw'', ''/tmp/v1.mp4.processed'' \<mapsto> ''remuxed''] \<rparr>)
     = db state0"
  using locator_after_upload [OF validated0 [of 3 0 0 "Some (S3Error ''AccessDenied'')" "''raw''"],
      of "Some ''landscape''" "''/tmp/v1.mp4.processed''"
      "state0\<lparr> fs := [''/tmp/v1.mp4'' \<mapsto> ''raw'', ''/tmp/v1.mp4.processed'' \<mapsto> ''remuxed''] \<rparr>"
      "''remuxed''" "S3Error ''AccessDenied''"]
  by (simp add: probe0_ok remux0_ok s3_write0 tempFilePath_v1 outFilePath_def stage_def
      state0_def cfg0_def)

subsection \<open>The storage key\<close>




end
